theory Spec2Isabelle
  imports Main
begin

section \<open>Emission buffer\<close>

text \<open>
  The transpiler classes write into a \<open>Buffer\<close> object (\<open>../buffer/buffer.js\<close>), whose
  source is not part of the sources at hand. Its operations are modelled from its
  contract: an ordered sequence of finished lines, the line under construction and
  an indentation counter.
\<close>

datatype error =
    TypeError                \<comment> \<open>reading a property of \<open>null\<close>/\<open>undefined\<close>, or calling a non-function\<close>
  | RangeError               \<comment> \<open>the call stack is exhausted\<close>
  | NodeCorrected            \<comment> \<open>the exception of \<open>correct(node)\<close> on a node; \<open>thrown\<close> says which it is\<close>
  | ContractViolation        \<comment> \<open>\<open>deleteLines\<close> beyond the lines emitted\<close>
  | SyntaxError string       \<comment> \<open>\<open>new RegExp\<close> on an invalid pattern\<close>
  | LoadError                \<comment> \<open>\<open>readFileSync\<close> or \<open>JSON.parse\<close> failed\<close>

record buffer =
  finished :: "string list"
  current :: string
  depth :: nat

text \<open>Modelled from the spec: \<open>new Buffer\<close>, the empty buffer at indentation 0.\<close>
definition newBuffer :: buffer where
  "newBuffer = \<lparr>finished = [], current = [], depth = 0\<rparr>"

text \<open>Modelled from the spec: the text of one indentation step (the buffer's own constant).\<close>
definition indentUnit :: string where
  "indentUnit = ''  ''"

text \<open>Modelled from the spec: \<open>add(text)\<close> appends text to the current line.\<close>
definition add :: "string \<Rightarrow> buffer \<Rightarrow> buffer" where
  "add t b = b\<lparr>current := current b @ t\<rparr>"

text \<open>Modelled from the spec: \<open>newline()\<close> terminates the current line and starts a new
  one at the current indent.\<close>
definition newline :: "buffer \<Rightarrow> buffer" where
  "newline b = b\<lparr>finished := finished b @ [current b],
                  current := concat (replicate (depth b) indentUnit)\<rparr>"

text \<open>Modelled from the spec: \<open>indent()\<close> and \<open>dedent()\<close> change the indentation counter.\<close>
definition indent :: "buffer \<Rightarrow> buffer" where
  "indent b = b\<lparr>depth := Suc (depth b)\<rparr>"

definition dedent :: "buffer \<Rightarrow> buffer" where
  "dedent b = b\<lparr>depth := depth b - 1\<rparr>"

definition isSpace :: "char \<Rightarrow> bool" where
  "isSpace c = (c = CHR '' '' \<or> c = CHR 0x09 \<or> c = CHR 0x0A \<or> c = CHR 0x0B
              \<or> c = CHR 0x0C \<or> c = CHR 0x0D)"

definition stripRight :: "string \<Rightarrow> string" where
  "stripRight s = rev (dropWhile isSpace (rev s))"

text \<open>Modelled from the spec: \<open>trim()\<close> removes trailing whitespace and blank lines from
  the most recent output. The blank lines are dropped from the end, newest first.\<close>
fun trimLines :: "string list \<Rightarrow> string \<Rightarrow> string list \<times> string" where
  "trimLines [] c = ([], stripRight c)"
| "trimLines (l # ls) c =
     (if stripRight c = [] then trimLines ls l else (rev (l # ls), stripRight c))"

definition trim :: "buffer \<Rightarrow> buffer" where
  "trim b = (case trimLines (rev (finished b)) (current b) of
               (ls, c) \<Rightarrow> b\<lparr>finished := ls, current := c\<rparr>)"

text \<open>Modelled from the spec: \<open>deleteLines(n)\<close> removes the last n emitted lines; asking
  for more lines than were emitted is a contract violation.\<close>
definition deleteLines :: "nat \<Rightarrow> buffer \<Rightarrow> error + buffer" where
  "deleteLines n b =
     (if n \<le> length (finished b)
      then Inr (b\<lparr>finished := take (length (finished b) - n) (finished b)\<rparr>)
      else Inl ContractViolation)"

text \<open>Modelled from the spec: \<open>get()\<close> returns the buffer's full text.\<close>
definition get :: "buffer \<Rightarrow> string" where
  "get b = concat (map (\<lambda>l. l @ [CHR 0x0A]) (finished b)) @ current b"


section \<open>AST nodes\<close>

text \<open>
  A node is a JavaScript object with a \<open>type\<close> tag; each constructor below is one tag with
  the fields the operations read. \<open>Null\<close> stands for an absent child (\<open>null\<close> or
  \<open>undefined\<close>); \<open>Other t\<close> is a node that has the tag \<open>t\<close> and none of the fields the
  operations read, whatever \<open>t\<close> is. A field that no operation reads under a node's tag is
  not represented.
\<close>

datatype node =
    Null
  | File node
  | Program "node list"
  | ExpressionStatement node
  | ImportDeclaration
  | FunctionDeclaration node "node list" node          \<comment> \<open>id, params, body\<close>
  | AssignmentExpression node string node              \<comment> \<open>left, operator, right\<close>
  | BlockStatement "node list"
  | VariableDeclaration "node list"
  | VariableDeclarator node node                       \<comment> \<open>id, init\<close>
  | ReturnStatement node                               \<comment> \<open>argument\<close>
  | CallExpression node "node list"                    \<comment> \<open>callee, arguments\<close>
  | MemberExpression node bool node                    \<comment> \<open>object, computed, property\<close>
  | UnaryExpression bool string node                   \<comment> \<open>prefix, operator, argument\<close>
  | BinaryExpression node string node                  \<comment> \<open>left, operator, right\<close>
  | ConditionalExpression node node node               \<comment> \<open>test, consequent, alternate\<close>
  | LogicalExpression node string node
  | IfStatement node node node                         \<comment> \<open>test, consequent, alternate\<close>
  | WhileStatement node node                           \<comment> \<open>test, body\<close>
  | DoWhileStatement node node                         \<comment> \<open>body, test\<close>
  | ForStatement node node node node                   \<comment> \<open>init, test, update, body\<close>
  | UpdateExpression bool string node                  \<comment> \<open>prefix, operator, argument\<close>
  | Identifier string
  | Literal bool string string   \<comment> \<open>has \<open>regex\<close>, \<open>raw\<close>, the text \<open>JSON.stringify(value)\<close>\<close>
  | NumericLiteral string        \<comment> \<open>the text of \<open>extra.rawValue\<close>\<close>
  | StringLiteral string         \<comment> \<open>\<open>extra.raw\<close>\<close>
  | BooleanLiteral bool
  | RegExpLiteral string         \<comment> \<open>\<open>extra.raw\<close>\<close>
  | ArrayExpression "node list"
  | Other string

text \<open>The method names of \<open>RubyTranspiler\<close> that are node operations.\<close>
definition operations :: "string list" where
  "operations =
    [''File'', ''Program'', ''ExpressionStatement'', ''ImportDeclaration'',
     ''FunctionDeclaration'', ''AssignmentExpression'', ''BlockStatement'',
     ''VariableDeclaration'', ''VariableDeclarator'', ''ReturnStatement'',
     ''CallExpression'', ''MemberExpression'', ''UnaryExpression'', ''BinaryExpression'',
     ''ConditionalExpression'', ''LogicalExpression'', ''IfStatement'', ''WhileStatement'',
     ''DoWhileStatement'', ''ForStatement'', ''UpdateExpression'', ''Identifier'',
     ''Literal'', ''NumericLiteral'', ''StringLiteral'', ''BooleanLiteral'',
     ''RegExpLiteral'', ''ArrayExpression'']"

text \<open>\<open>node.type\<close>.\<close>
fun tag :: "node \<Rightarrow> string option" where
  "tag Null = None"
| "tag (File _) = Some ''File''"
| "tag (Program _) = Some ''Program''"
| "tag (ExpressionStatement _) = Some ''ExpressionStatement''"
| "tag ImportDeclaration = Some ''ImportDeclaration''"
| "tag (FunctionDeclaration _ _ _) = Some ''FunctionDeclaration''"
| "tag (AssignmentExpression _ _ _) = Some ''AssignmentExpression''"
| "tag (BlockStatement _) = Some ''BlockStatement''"
| "tag (VariableDeclaration _) = Some ''VariableDeclaration''"
| "tag (VariableDeclarator _ _) = Some ''VariableDeclarator''"
| "tag (ReturnStatement _) = Some ''ReturnStatement''"
| "tag (CallExpression _ _) = Some ''CallExpression''"
| "tag (MemberExpression _ _ _) = Some ''MemberExpression''"
| "tag (UnaryExpression _ _ _) = Some ''UnaryExpression''"
| "tag (BinaryExpression _ _ _) = Some ''BinaryExpression''"
| "tag (ConditionalExpression _ _ _) = Some ''ConditionalExpression''"
| "tag (LogicalExpression _ _ _) = Some ''LogicalExpression''"
| "tag (IfStatement _ _ _) = Some ''IfStatement''"
| "tag (WhileStatement _ _) = Some ''WhileStatement''"
| "tag (DoWhileStatement _ _) = Some ''DoWhileStatement''"
| "tag (ForStatement _ _ _ _) = Some ''ForStatement''"
| "tag (UpdateExpression _ _ _) = Some ''UpdateExpression''"
| "tag (Identifier _) = Some ''Identifier''"
| "tag (Literal _ _ _) = Some ''Literal''"
| "tag (NumericLiteral _) = Some ''NumericLiteral''"
| "tag (StringLiteral _) = Some ''StringLiteral''"
| "tag (BooleanLiteral _) = Some ''BooleanLiteral''"
| "tag (RegExpLiteral _) = Some ''RegExpLiteral''"
| "tag (ArrayExpression _) = Some ''ArrayExpression''"
| "tag (Other t) = Some t"

text \<open>\<open>node.name\<close>, as a truth value and as text: only an identifier carries a name, and
  the empty string is falsy.\<close>
fun nameOf :: "node \<Rightarrow> string option" where
  "nameOf (Identifier n) = (if n = [] then None else Some n)"
| "nameOf _ = None"

text \<open>The text that \<open>add(node.property.name)\<close> appends: a missing name is \<open>undefined\<close>,
  which string concatenation renders as that word.\<close>
fun propertyName :: "node \<Rightarrow> string" where
  "propertyName (Identifier n) = n"
| "propertyName _ = ''undefined''"

text \<open>A measure for the traversal: a node weighs more than the nodes dispatched for it,
  including the block synthesized for a bare consequent and the loop a \<open>for\<close> turns into.\<close>
fun weight :: "node \<Rightarrow> nat" where
  "weight Null = 1"
| "weight (File n) = 1 + weight n"
| "weight (Program ns) = 1 + sum_list (map weight ns) + length ns"
| "weight (ExpressionStatement n) = 1 + weight n"
| "weight ImportDeclaration = 1"
| "weight (FunctionDeclaration i ps b) = 1 + weight i + sum_list (map weight ps) + length ps + weight b"
| "weight (AssignmentExpression l _ r) = 1 + weight l + weight r"
| "weight (BlockStatement ns) = 1 + sum_list (map weight ns) + length ns"
| "weight (VariableDeclaration ns) = 1 + sum_list (map weight ns) + length ns"
| "weight (VariableDeclarator i n) = 1 + weight i + weight n"
| "weight (ReturnStatement n) = 1 + weight n"
| "weight (CallExpression c as) = 1 + weight c + sum_list (map weight as) + length as"
| "weight (MemberExpression obj _ p) = 1 + weight obj + weight p"
| "weight (UnaryExpression _ _ n) = 1 + weight n"
| "weight (BinaryExpression l _ r) = 1 + weight l + weight r"
| "weight (ConditionalExpression t c a) = 1 + weight t + weight c + weight a"
| "weight (LogicalExpression l _ r) = 1 + weight l + weight r"
| "weight (IfStatement t c a) = 4 + weight t + weight c + weight a"
| "weight (WhileStatement t b) = 1 + weight t + weight b"
| "weight (DoWhileStatement b t) = 1 + weight t + weight b"
| "weight (ForStatement i t u b) = 4 + weight i + weight t + weight u + weight b"
| "weight (UpdateExpression _ _ n) = 1 + weight n"
| "weight (Identifier _) = 1"
| "weight (Literal _ _ _) = 1"
| "weight (NumericLiteral _) = 1"
| "weight (StringLiteral _) = 1"
| "weight (BooleanLiteral _) = 1"
| "weight (RegExpLiteral _) = 1"
| "weight (ArrayExpression ns) = 1 + sum_list (map weight ns) + length ns"
| "weight (Other _) = 1"


text \<open>The properties of a \<open>RubyTranspiler\<close> object that are not node operations: the other
  methods of the two classes, the two fields, and the members inherited from
  \<open>Object.prototype\<close>.\<close>
definition otherMembers :: "string list" where
  "otherMembers =
    [''constructor'', ''parse'', ''recursiveParse'', ''correct'', ''clear'',
     ''buffer'', ''corrections'',
     ''__defineGetter__'', ''__defineSetter__'', ''hasOwnProperty'', ''__lookupGetter__'',
     ''__lookupSetter__'', ''isPrototypeOf'', ''propertyIsEnumerable'', ''toString'',
     ''valueOf'', ''__proto__'', ''toLocaleString'']"

definition members :: "string list" where
  "members = operations @ otherMembers"


section \<open>Dispatch engine\<close>

text \<open>An exception aborts the run: the rest of a method is run only on a normal result.\<close>
definition bnd :: "error + 'a \<Rightarrow> ('a \<Rightarrow> error + 'b) \<Rightarrow> error + 'b" where
  "bnd m f = (case m of Inl e \<Rightarrow> Inl e | Inr x \<Rightarrow> f x)"

lemma bnd_cong [fundef_cong]:
  "m = m' \<Longrightarrow> (\<And>x. m' = Inr x \<Longrightarrow> f x = f' x) \<Longrightarrow> bnd m f = bnd m' f'"
  by (auto simp: bnd_def split: sum.splits)

lemma bnd_Inl [simp]: "bnd (Inl e) f = Inl e"
  by (simp add: bnd_def)

lemma bnd_Inr [simp]: "bnd (Inr x) f = f x"
  by (simp add: bnd_def)

text \<open>
  \<open>this[t](node)\<close> for a node that has the tag \<open>t\<close> and no field. The lookup finds every
  property of the object, not only the operations:
  \<^item> an operation runs on the node without fields: \<open>ImportDeclaration\<close> and
    \<open>ReturnStatement\<close> emit their text, \<open>Identifier\<close>, \<open>Literal\<close> and \<open>BooleanLiteral\<close> add
    \<open>undefined\<close>, and the others raise a \<open>TypeError\<close> on the missing child;
  \<^item> \<open>clear\<close> replaces the buffer by a new one;
  \<^item> the members of \<open>Object.prototype\<close> that accept any argument return without touching
    the buffer;
  \<^item> \<open>parse\<close> and \<open>recursiveParse\<close> dispatch the same node again, without end;
  \<^item> \<open>correct\<close> is called on the node instead of a text and raises;
  \<^item> any other property is not a function that can be called (\<open>constructor\<close> needs \<open>new\<close>,
    \<open>__defineGetter__\<close> and \<open>__defineSetter__\<close> need a function, the fields and \<open>__proto__\<close>
    are objects), and a name that is no property gives \<open>undefined\<close>: a \<open>TypeError\<close>.
\<close>
definition callMember :: "string \<Rightarrow> buffer \<Rightarrow> error + buffer" where
  "callMember t b =
     (if t = ''ImportDeclaration'' then Inr (add ''@DELETE@\<newline>'' b)
      else if t = ''ReturnStatement'' then Inr (newline (add ''return '' b))
      else if t \<in> set [''Identifier'', ''Literal'', ''BooleanLiteral'']
        then Inr (add ''undefined'' b)
      else if t = ''clear'' then Inr newBuffer
      else if t \<in> set [''toString'', ''toLocaleString'', ''valueOf'', ''hasOwnProperty'',
                        ''isPrototypeOf'', ''propertyIsEnumerable'', ''__lookupGetter__'',
                        ''__lookupSetter__'']
        then Inr b
      else if t \<in> set [''parse'', ''recursiveParse''] then Inl RangeError
      else if t = ''correct'' then Inl NodeCorrected
      else Inl TypeError)"

text \<open>
  \<open>recursiveParse node buf\<close> is \<open>RubyTranspiler.recursiveParse\<close>: it runs the method named by
  the node's tag, with the methods of \<open>TranspilerSuper\<close> where \<open>RubyTranspiler\<close> does not
  override them and the \<open>super\<close> calls written out. The methods change the buffer and, in
  \<open>IfStatement\<close> and \<open>ForStatement\<close>, the node itself, so a normal result is the node as the
  run leaves it and the buffer. A run that raises ends with the exception alone: what the
  buffer and the tree hold at that moment is not part of the result.
  \<open>parseEach\<close> is the loop \<open>for (i = 0; i < list.length; i++) recursiveParse(list[i])\<close>, and
  \<open>parseMore\<close> the loop that adds \<open>", "\<close> before each further element of a list.
\<close>

function recursiveParse :: "node \<Rightarrow> buffer \<Rightarrow> error + (node \<times> buffer)"
  and parseEach :: "node list \<Rightarrow> buffer \<Rightarrow> error + (node list \<times> buffer)"
  and parseMore :: "node list \<Rightarrow> buffer \<Rightarrow> error + (node list \<times> buffer)"
where
  "recursiveParse Null b = Inl TypeError"
| "recursiveParse (Other t) b =
     bnd (callMember t b) (\<lambda>b1. Inr (Other t, b1))"
| "recursiveParse (File p) b =
     bnd (recursiveParse p b) (\<lambda>(p', b1). Inr (File p', b1))"
| "recursiveParse (Program ns) b =
     bnd (parseEach ns b) (\<lambda>(ns', b1). Inr (Program ns', b1))"
| "recursiveParse (ExpressionStatement e) b =
     bnd (recursiveParse e b) (\<lambda>(e', b1). Inr (ExpressionStatement e', newline b1))"
| "recursiveParse ImportDeclaration b =
     Inr (ImportDeclaration, add (''@DELETE@'' @ [CHR 0x0A]) b)"
| "recursiveParse (FunctionDeclaration i ps body) b =
     bnd (recursiveParse i (add ''def '' b)) (\<lambda>(i', b1).
     bnd (case ps of
            [] \<Rightarrow> Inr ([], add ''('' b1)
          | p # rest \<Rightarrow>
              bnd (recursiveParse p (add ''('' b1)) (\<lambda>(p', b2).
              bnd (parseMore rest b2) (\<lambda>(rest', b3). Inr (p' # rest', b3)))) (\<lambda>(ps', b4).
     bnd (recursiveParse body (add '')'' b4)) (\<lambda>(body', b5).
     Inr (FunctionDeclaration i' ps' body', newline b5))))"
| "recursiveParse (AssignmentExpression l opr r) b =
     bnd (recursiveParse l b) (\<lambda>(l', b1).
     bnd (recursiveParse r (add '' '' (add opr (add '' '' b1)))) (\<lambda>(r', b2).
     Inr (AssignmentExpression l' opr r', b2)))"
| "recursiveParse (BlockStatement ns) b =
     bnd (parseEach ns (newline (indent b))) (\<lambda>(ns', b1).
     Inr (BlockStatement ns', newline (add ''end'' (newline (dedent (trim b1))))))"
| "recursiveParse (VariableDeclaration ds) b =
     bnd (parseEach ds b) (\<lambda>(ds', b1). Inr (VariableDeclaration ds', newline b1))"
| "recursiveParse (VariableDeclarator i init) b =
     bnd (recursiveParse i b) (\<lambda>(i', b1).
     if init \<noteq> Null
     then bnd (recursiveParse init (add '' = '' b1)) (\<lambda>(init', b2).
          Inr (VariableDeclarator i' init', b2))
     else Inr (VariableDeclarator i' init, b1))"
| "recursiveParse (ReturnStatement a) b =
     (if a \<noteq> Null
      then bnd (recursiveParse a (add ''return '' b)) (\<lambda>(a', b1).
           Inr (ReturnStatement a', newline b1))
      else Inr (ReturnStatement a, newline (add ''return '' b)))"
| "recursiveParse (CallExpression c as) b =
     bnd (recursiveParse c b) (\<lambda>(c', b1).
     bnd (case as of
            [] \<Rightarrow> Inr ([], add ''('' b1)
          | a # rest \<Rightarrow>
              bnd (recursiveParse a (add ''('' b1)) (\<lambda>(a', b2).
              bnd (parseMore rest b2) (\<lambda>(rest', b3). Inr (a' # rest', b3)))) (\<lambda>(as', b4).
     Inr (CallExpression c' as', add '')'' b4)))"
| "recursiveParse (MemberExpression obj computed prop) b =
     (if obj = Null then Inl TypeError
      else
        bnd (case nameOf obj of
               Some n \<Rightarrow> Inr (obj, add n b)
             | None \<Rightarrow> recursiveParse obj b) (\<lambda>(obj', b1).
        if prop = Null then Inl TypeError
        else if computed
        then Inr (MemberExpression obj' computed prop,
                  add '']'' (add (propertyName prop) (add ''['' b1)))
        else Inr (MemberExpression obj' computed prop,
                  add (propertyName prop) (add ''.'' b1))))"
| "recursiveParse (UnaryExpression pre opr a) b =
     bnd (recursiveParse a (if pre then add opr b else b)) (\<lambda>(a', b1).
     Inr (UnaryExpression pre opr a', if \<not> pre then add opr b1 else b1))"
| "recursiveParse (BinaryExpression l opr r) b =
     (if l = Null then Inl TypeError
      else
        bnd (if tag l = Some ''BinaryExpression''
             then bnd (recursiveParse l (add ''('' b)) (\<lambda>(l', b1). Inr (l', add '')'' b1))
             else recursiveParse l b) (\<lambda>(l', b2).
        let b3 = add '' '' (add opr (add '' '' b2)) in
        if r = Null then Inl TypeError
        else
          bnd (if tag r = Some ''BinaryExpression''
               then bnd (recursiveParse r (add ''('' b3)) (\<lambda>(r', b4). Inr (r', add '')'' b4))
               else recursiveParse r b3) (\<lambda>(r', b5).
          Inr (BinaryExpression l' opr r', b5))))"
| "recursiveParse (ConditionalExpression t c a) b =
     bnd (recursiveParse t (add ''('' b)) (\<lambda>(t', b1).
     bnd (recursiveParse c (add '' ? '' b1)) (\<lambda>(c', b2).
     bnd (recursiveParse a (add '' : '' b2)) (\<lambda>(a', b3).
     Inr (ConditionalExpression t' c' a', add '')'' b3))))"
| "recursiveParse (LogicalExpression l opr r) b =
     bnd (recursiveParse l b) (\<lambda>(l', b1).
     bnd (recursiveParse r (add ('' '' @ opr @ '' '') b1)) (\<lambda>(r', b2).
     Inr (LogicalExpression l' opr r', b2)))"
| "recursiveParse (IfStatement t c a) b =
     bnd (recursiveParse t (add ''if '' b)) (\<lambda>(t', b1).
     if c = Null then Inl TypeError
     else
       bnd (recursiveParse
              (if tag c \<noteq> Some ''BlockStatement'' then BlockStatement [c] else c) b1)
           (\<lambda>(c', b2).
       if a \<noteq> Null
       then bnd (deleteLines 1 b2) (\<lambda>b3.
            bnd (recursiveParse a (add ''else '' b3)) (\<lambda>(a', b4).
            Inr (IfStatement t' c' a', b4)))
       else Inr (IfStatement t' c' a, b2)))"
| "recursiveParse (WhileStatement t body) b =
     bnd (recursiveParse t (add ''while ('' b)) (\<lambda>(t', b1).
     bnd (recursiveParse body (add '')'' b1)) (\<lambda>(body', b2).
     Inr (WhileStatement t' body', b2)))"
| "recursiveParse (DoWhileStatement body t) b =
     bnd (recursiveParse body (add ''do'' b)) (\<lambda>(body', b1).
     bnd (recursiveParse t (add '' while ('' (trim b1))) (\<lambda>(t', b2).
     Inr (DoWhileStatement body' t', newline (add '') '' b2))))"
| "recursiveParse (ForStatement i t u body) b =
     bnd (recursiveParse i b) (\<lambda>(i', b1).
     case body of
       BlockStatement ss \<Rightarrow> recursiveParse (WhileStatement t (BlockStatement (ss @ [u]))) b1
     | Program ss \<Rightarrow> recursiveParse (WhileStatement t (Program (ss @ [u]))) b1
     | _ \<Rightarrow> Inl TypeError)"
| "recursiveParse (UpdateExpression pre opr a) b =
     bnd (recursiveParse a (if pre then add opr b else b)) (\<lambda>(a', b1).
     Inr (UpdateExpression pre opr a', if \<not> pre then add opr b1 else b1))"
| "recursiveParse (Identifier n) b = Inr (Identifier n, add n b)"
| "recursiveParse (Literal rg raw js) b =
     Inr (Literal rg raw js, add (if rg then raw else js) b)"
| "recursiveParse (NumericLiteral v) b = Inr (NumericLiteral v, add v b)"
| "recursiveParse (StringLiteral raw) b = Inr (StringLiteral raw, add raw b)"
| "recursiveParse (BooleanLiteral v) b =
     Inr (BooleanLiteral v, add (if v then ''true'' else ''false'') b)"
| "recursiveParse (RegExpLiteral raw) b = Inr (RegExpLiteral raw, add raw b)"
| "recursiveParse (ArrayExpression es) b =
     bnd (case es of
            [] \<Rightarrow> Inr ([], add ''['' b)
          | e # rest \<Rightarrow>
              bnd (recursiveParse e (add ''['' b)) (\<lambda>(e', b1).
              bnd (parseMore rest b1) (\<lambda>(rest', b2). Inr (e' # rest', b2)))) (\<lambda>(es', b3).
     Inr (ArrayExpression es', add '']'' b3))"
| "parseEach [] b = Inr ([], b)"
| "parseEach (n # ns) b =
     bnd (recursiveParse n b) (\<lambda>(n', b1).
     bnd (parseEach ns b1) (\<lambda>(ns', b2). Inr (n' # ns', b2)))"
| "parseMore [] b = Inr ([], b)"
| "parseMore (n # ns) b =
     bnd (recursiveParse n (add '', '' b)) (\<lambda>(n', b1).
     bnd (parseMore ns b1) (\<lambda>(ns', b2). Inr (n' # ns', b2)))"
  by pat_completeness auto


lemma weight_pos: "0 < weight n"
  by (cases n) auto

termination recursiveParse
  apply (relation "measure (\<lambda>x. case x of
            Inl (n, b) \<Rightarrow> 2 * weight n
          | Inr (Inl (ns, b)) \<Rightarrow> 2 * (sum_list (map weight ns) + length ns) + 1
          | Inr (Inr (ns, b)) \<Rightarrow> 2 * (sum_list (map weight ns) + length ns) + 1)")
  apply (auto simp: weight_pos)
  done

text \<open>The text a run leaves in the buffer, or the exception that ended it.\<close>
definition emitted :: "error + (node \<times> buffer) \<Rightarrow> error + string" where
  "emitted r = (case r of Inl e \<Rightarrow> Inl e | Inr (n, b) \<Rightarrow> Inr (get b))"

text \<open>The text of an operand of a binary expression: in parentheses when the operand's
  tag is \<open>BinaryExpression\<close>, bare otherwise.\<close>
definition wrapBinary :: "node \<Rightarrow> string \<Rightarrow> string" where
  "wrapBinary n t = (if tag n = Some ''BinaryExpression'' then ''('' @ t @ '')'' else t)"

section \<open>Regular expressions\<close>

text \<open>
  The correction pass works with JavaScript regular expressions. A pattern is a term of
  \<open>rx\<close>. The matcher is the backtracking matcher of the language, with the work still to do
  kept on a stack of frames: \<open>run k s\<close> matches the frames of \<open>k\<close> one after the other from
  the position \<open>s\<close> and returns the end of the first way to do so that it finds, trying the
  alternatives in the language's order. A position is the text before it (reversed), the
  text from it on, and the captures made so far (newest first).
\<close>

type_synonym captures = "(nat \<times> string) list"
type_synonym position = "string \<times> string \<times> captures"

datatype rx =
    Chr "char \<Rightarrow> bool"           \<comment> \<open>one character of a class\<close>
  | Eps
  | Seq rx rx
  | Alt rx rx
  | Star rx                       \<comment> \<open>\<open>r*\<close>, greedy\<close>
  | LazyStar rx                   \<comment> \<open>\<open>r*?\<close>\<close>
  | Group nat rx                  \<comment> \<open>capturing group number n\<close>
  | NotBehind "(char \<Rightarrow> bool) list" \<comment> \<open>\<open>(?<!...)\<close> over a fixed sequence of classes\<close>

datatype frame =
    Match rx
  | Again rx nat       \<comment> \<open>after an iteration of \<open>r*\<close> begun with n characters left\<close>
  | LazyAgain rx nat   \<comment> \<open>the same for \<open>r*?\<close>\<close>
  | Close nat string   \<comment> \<open>the end of group n, begun at the given text\<close>

fun remaining :: "position \<Rightarrow> nat" where
  "remaining (bef, rest, cs) = length rest"

text \<open>The characters before a position match the classes, the last class nearest.\<close>
fun behind :: "(char \<Rightarrow> bool) list \<Rightarrow> string \<Rightarrow> bool" where
  "behind [] bef = True"
| "behind (p # ps) [] = False"
| "behind (p # ps) (c # bef) = (p c \<and> behind ps bef)"

fun frameWeight :: "nat \<Rightarrow> frame \<Rightarrow> nat" where
  "frameWeight m (Match r) = 2 * size r + 1"
| "frameWeight m (Again r n) = (if m < n then 2 * size r + 4 else 0)"
| "frameWeight m (LazyAgain r n) = (if m < n then 2 * size r + 4 else 0)"
| "frameWeight m (Close n start) = 1"

function run :: "frame list \<Rightarrow> position \<Rightarrow> position option" where
  "run [] s = Some s"
| "run (Match (Chr p) # k) (bef, rest, cs) =
     (case rest of [] \<Rightarrow> None | c # r \<Rightarrow> if p c then run k (c # bef, r, cs) else None)"
| "run (Match Eps # k) s = run k s"
| "run (Match (Seq r1 r2) # k) s = run (Match r1 # Match r2 # k) s"
| "run (Match (Alt r1 r2) # k) s =
     (case run (Match r1 # k) s of Some e \<Rightarrow> Some e | None \<Rightarrow> run (Match r2 # k) s)"
| "run (Match (Star r) # k) s =
     (case run (Match r # Again r (remaining s) # k) s of
        Some e \<Rightarrow> Some e
      | None \<Rightarrow> run k s)"
| "run (Again r n # k) s = (if remaining s < n then run (Match (Star r) # k) s else None)"
| "run (Match (LazyStar r) # k) s =
     (case run k s of
        Some e \<Rightarrow> Some e
      | None \<Rightarrow> run (Match r # LazyAgain r (remaining s) # k) s)"
| "run (LazyAgain r n # k) s = (if remaining s < n then run (Match (LazyStar r) # k) s else None)"
| "run (Match (Group n r) # k) (bef, rest, cs) = run (Match r # Close n rest # k) (bef, rest, cs)"
| "run (Close n start # k) (bef, rest, cs) =
     run k (bef, rest, (n, take (length start - length rest) start) # cs)"
| "run (Match (NotBehind ps) # k) (bef, rest, cs) =
     (if behind (rev ps) bef then None else run k (bef, rest, cs))"
  by pat_completeness auto
termination
  by (relation "measures [\<lambda>(k, s). remaining s,
                          \<lambda>(k, s). sum_list (map (frameWeight (remaining s)) k)]") auto

definition OneOrMore :: "rx \<Rightarrow> rx" where
  "OneOrMore r = Seq r (Star r)"

definition LazyOneOrMore :: "rx \<Rightarrow> rx" where
  "LazyOneOrMore r = Seq r (LazyStar r)"

definition Optional :: "rx \<Rightarrow> rx" where
  "Optional r = Alt r Eps"

fun seqs :: "rx list \<Rightarrow> rx" where
  "seqs [] = Eps"
| "seqs [r] = r"
| "seqs (r # rs) = Seq r (seqs rs)"

definition toLower :: "char \<Rightarrow> char" where
  "toLower c = (let n = of_char c :: nat in if 65 \<le> n \<and> n \<le> 90 then char_of (n + 32) else c)"

text \<open>A pattern character under the flag \<open>i\<close>, and without it.\<close>
definition ci :: "char \<Rightarrow> char \<Rightarrow> bool" where
  "ci c x = (toLower x = toLower c)"

definition lit :: "string \<Rightarrow> rx" where
  "lit s = seqs (map (\<lambda>c. Chr (ci c)) s)"

definition litcs :: "string \<Rightarrow> rx" where
  "litcs s = seqs (map (\<lambda>c. Chr (\<lambda>x. x = c)) s)"

definition lineTerminator :: "char \<Rightarrow> bool" where
  "lineTerminator c = (c = CHR 0x0A \<or> c = CHR 0x0D)"

text \<open>\<open>.\<close>, \<open>\w\<close> and \<open>\s\<close>.\<close>
definition anyChar :: "char \<Rightarrow> bool" where
  "anyChar c = (\<not> lineTerminator c)"

definition wordChar :: "char \<Rightarrow> bool" where
  "wordChar c = (let n = of_char c :: nat in
     (48 \<le> n \<and> n \<le> 57) \<or> (65 \<le> n \<and> n \<le> 90) \<or> (97 \<le> n \<and> n \<le> 122) \<or> n = 95)"

definition spaceChar :: "char \<Rightarrow> bool" where
  "spaceChar c = (let n = of_char c :: nat in (9 \<le> n \<and> n \<le> 13) \<or> n = 32 \<or> n = 160)"


definition notSpaceComma :: "char \<Rightarrow> bool" where
  "notSpaceComma c = (\<not> spaceChar c \<and> c \<noteq> CHR '','')"

definition notParen :: "char \<Rightarrow> bool" where
  "notParen c = (c \<noteq> CHR ''('' \<and> c \<noteq> CHR '')'')"

text \<open>The match the matcher reports at a position: the matched text, the text after it and
  the captures.\<close>
definition firstMatch :: "rx \<Rightarrow> string \<Rightarrow> string \<Rightarrow> (string \<times> string \<times> captures) option" where
  "firstMatch r bef rest =
     (case run [Match r] (bef, rest, []) of
        None \<Rightarrow> None
      | Some (bef', rest', cs) \<Rightarrow> Some (take (length rest - length rest') rest, rest', cs))"

text \<open>\<open>$n\<close>: the text of group n, empty when the group took no part in the match.\<close>
definition cap :: "nat \<Rightarrow> captures \<Rightarrow> string" where
  "cap n cs = (case map_of cs n of Some t \<Rightarrow> t | None \<Rightarrow> [])"

text \<open>
  A global scan (flag \<open>g\<close>), as \<open>replace\<close> and \<open>matchAll\<close> run it: the leftmost match, then
  the leftmost match after it, and so on. The result lists the characters passed over
  (\<open>Inl\<close>) and the matches (\<open>Inr\<close>) in text order. After an empty match the scan moves on by
  one character.
\<close>
function scan :: "rx \<Rightarrow> string \<Rightarrow> string \<Rightarrow> (char + string \<times> captures) list" where
  "scan r bef rest =
     (case firstMatch r bef rest of
        Some (m, rest', cs) \<Rightarrow>
          if length rest' < length rest
          then Inr (m, cs) # scan r (rev m @ bef) rest'
          else Inr (m, cs) #
               (case rest of [] \<Rightarrow> [] | c # rest1 \<Rightarrow> Inl c # scan r (c # bef) rest1)
      | None \<Rightarrow> (case rest of [] \<Rightarrow> [] | c # rest1 \<Rightarrow> Inl c # scan r (c # bef) rest1))"
  by pat_completeness auto
termination
  by (relation "measure (\<lambda>(r, bef, rest). length rest)") auto

text \<open>\<open>code.replace(regex, f)\<close> for a global regex and a replacement computed from the
  match; the second form threads the state a replacement function keeps between calls.\<close>
definition replaceAll :: "rx \<Rightarrow> (string \<Rightarrow> captures \<Rightarrow> string) \<Rightarrow> string \<Rightarrow> string" where
  "replaceAll r f code =
     concat (map (\<lambda>x. case x of Inl c \<Rightarrow> [c] | Inr (m, cs) \<Rightarrow> f m cs) (scan r [] code))"

fun replaceItems ::
  "('s \<Rightarrow> string \<Rightarrow> captures \<Rightarrow> string \<times> 's) \<Rightarrow> 's \<Rightarrow> (char + string \<times> captures) list
   \<Rightarrow> string \<times> 's" where
  "replaceItems f st [] = ([], st)"
| "replaceItems f st (Inl c # xs) =
     (case replaceItems f st xs of (out, st') \<Rightarrow> (c # out, st'))"
| "replaceItems f st (Inr (m, cs) # xs) =
     (case f st m cs of (t, st1) \<Rightarrow>
      case replaceItems f st1 xs of (out, st2) \<Rightarrow> (t @ out, st2))"

definition replaceAllState ::
  "rx \<Rightarrow> ('s \<Rightarrow> string \<Rightarrow> captures \<Rightarrow> string \<times> 's) \<Rightarrow> 's \<Rightarrow> string \<Rightarrow> string \<times> 's" where
  "replaceAllState r f st code = replaceItems f st (scan r [] code)"

text \<open>\<open>code.matchAll(regex)\<close>: the matches of a global scan.\<close>
definition matchAll :: "rx \<Rightarrow> string \<Rightarrow> (string \<times> captures) list" where
  "matchAll r code = List.map_filter (\<lambda>x. case x of Inl c \<Rightarrow> None | Inr h \<Rightarrow> Some h) (scan r [] code)"


section \<open>Correction pipeline\<close>

text \<open>String helpers of the language: \<open>startsWith\<close>, \<open>indexOf(..) != -1\<close>, \<open>split\<close> and \<open>join\<close>
  with a separator, and \<open>replace\<close> with a string pattern, which replaces the first
  occurrence and expands \<open>$$\<close>, \<open>$&\<close>, \<open>$`\<close> and \<open>$'\<close> in the replacement.\<close>

definition startsWith :: "string \<Rightarrow> string \<Rightarrow> bool" where
  "startsWith p s = (take (length p) s = p)"

fun contains :: "string \<Rightarrow> string \<Rightarrow> bool" where
  "contains p [] = (p = [])"
| "contains p (c # s) = (startsWith p (c # s) \<or> contains p s)"

fun expandReplacement :: "string \<Rightarrow> string \<Rightarrow> string \<Rightarrow> string \<Rightarrow> string" where
  "expandReplacement [] m bef aft = []"
| "expandReplacement [c] m bef aft = [c]"
| "expandReplacement (c # d # r) m bef aft =
     (if c = CHR ''$'' \<and> d = CHR ''$'' then CHR ''$'' # expandReplacement r m bef aft
      else if c = CHR ''$'' \<and> d = CHR ''&'' then m @ expandReplacement r m bef aft
      else if c = CHR ''$'' \<and> d = CHR 0x60 then bef @ expandReplacement r m bef aft
      else if c = CHR ''$'' \<and> d = CHR 0x27 then aft @ expandReplacement r m bef aft
      else c # expandReplacement (d # r) m bef aft)"

fun replaceFirstFrom :: "string \<Rightarrow> string \<Rightarrow> string \<Rightarrow> string \<Rightarrow> string" where
  "replaceFirstFrom pat rep bef [] =
     (if pat = [] then expandReplacement rep [] (rev bef) [] else rev bef)"
| "replaceFirstFrom pat rep bef (c # s) =
     (if startsWith pat (c # s)
      then rev bef @ expandReplacement rep pat (rev bef) (drop (length pat) (c # s))
           @ drop (length pat) (c # s)
      else replaceFirstFrom pat rep (c # bef) s)"

definition replaceFirst :: "string \<Rightarrow> string \<Rightarrow> string \<Rightarrow> string" where
  "replaceFirst pat rep s = replaceFirstFrom pat rep [] s"

text \<open>\<open>s.split(sep)\<close> for a separator that is not empty.\<close>
function splitFrom :: "string \<Rightarrow> string \<Rightarrow> string \<Rightarrow> string list" where
  "splitFrom sep acc s =
     (if s = [] then [rev acc]
      else if sep \<noteq> [] \<and> startsWith sep s then rev acc # splitFrom sep [] (drop (length sep) s)
      else splitFrom sep (hd s # acc) (tl s))"
  by pat_completeness auto
termination
  by (relation "measure (\<lambda>(sep, acc, s). length s)") auto

definition split :: "string \<Rightarrow> string \<Rightarrow> string list" where
  "split sep s = splitFrom sep [] s"

fun join :: "string \<Rightarrow> string list \<Rightarrow> string" where
  "join sep [] = []"
| "join sep [x] = x"
| "join sep (x # xs) = x @ sep @ join sep xs"

subsection \<open>Step 1: the correction table\<close>

text \<open>
  The table is the object read from \<open>ruby.json\<close>, as the list of its entries in the order
  of \<open>Object.keys\<close>. Its patterns are data, so the regular expressions of this step are
  those of the language itself: \<open>re key\<close> is \<open>None\<close> when \<open>new RegExp(key, 'gmi')\<close> raises a
  \<open>SyntaxError\<close>, and otherwise the function that takes a replacement and a text to
  \<open>text.replace(new RegExp(key, 'gmi'), replacement)\<close>.
\<close>
type_synonym regexp = "string \<Rightarrow> (string \<Rightarrow> string \<Rightarrow> string) option"

fun applyTable :: "regexp \<Rightarrow> (string \<times> string) list \<Rightarrow> string \<Rightarrow> error + string" where
  "applyTable re [] code = Inr code"
| "applyTable re ((key, rep) # entries) code =
     (case re key of
        None \<Rightarrow> Inl (SyntaxError key)
      | Some f \<Rightarrow> applyTable re entries (f rep code))"

subsection \<open>Step 2: \<open>Math.floor\<close>\<close>

text \<open>\<open>/Math.floor\((.+)\)/gm\<close>, replaced by \<open>($1).floor\<close>.\<close>
definition floorRx :: rx where
  "floorRx = seqs [litcs ''Math'', Chr anyChar, litcs ''floor('', Group 1 (OneOrMore (Chr anyChar)),
                   litcs '')'']"

definition floorRewrite :: "string \<Rightarrow> string" where
  "floorRewrite code = replaceAll floorRx (\<lambda>m cs. ''('' @ cap 1 cs @ '').floor'') code"

subsection \<open>Step 3: parameters that are called\<close>

text \<open>\<open>higherOrderFuncs\<close>: function name to parameter position. \<open>Object.keys\<close> lists the keys
  that are array indices first, in ascending order, then the others in the order of their
  first assignment. An assignment to the key \<open>__proto__\<close> goes to the setter of the plain
  object, which ignores a number: no key is added.\<close>
type_synonym registry = "(string \<times> nat) list"

fun regPut :: "string \<Rightarrow> nat \<Rightarrow> registry \<Rightarrow> registry" where
  "regPut k v [] = [(k, v)]"
| "regPut k v ((k', v') # reg) = (if k = k' then (k, v) # reg else (k', v') # regPut k v reg)"

definition regSet :: "string \<Rightarrow> nat \<Rightarrow> registry \<Rightarrow> registry" where
  "regSet k v reg = (if k = ''__proto__'' then reg else regPut k v reg)"

definition digitChar :: "char \<Rightarrow> bool" where
  "digitChar c = (48 \<le> (of_char c :: nat) \<and> (of_char c :: nat) \<le> 57)"

definition decimal :: "string \<Rightarrow> int" where
  "decimal s = foldl (\<lambda>n c. 10 * n + (of_char c - 48)) 0 s"

definition arrayIndex :: "string \<Rightarrow> bool" where
  "arrayIndex k = (k \<noteq> [] \<and> list_all digitChar k \<and> (hd k \<noteq> CHR ''0'' \<or> length k = 1)
                  \<and> decimal k < 4294967295)"

definition keysOf :: "registry \<Rightarrow> string list" where
  "keysOf reg = sort_key decimal (filter arrayIndex (map fst reg))
                @ filter (\<lambda>k. \<not> arrayIndex k) (map fst reg)"

text \<open>\<open>/def (\w+)\(.+\)\n(.+\n)+/gmi\<close>, \<open>/def \w+\((.+)\)/gmi\<close> and
  \<open>/([^\s,]+\(.+?\))|([^\s,]+)/gmi\<close>.\<close>
definition defRx :: rx where
  "defRx = seqs [lit ''def '', Group 1 (OneOrMore (Chr wordChar)), lit ''('', OneOrMore (Chr anyChar),
                 lit '')\<newline>'', OneOrMore (Group 2 (Seq (OneOrMore (Chr anyChar)) (lit ''\<newline>'')))]"

definition declRx :: rx where
  "declRx = seqs [lit ''def '', OneOrMore (Chr wordChar), lit ''('', Group 1 (OneOrMore (Chr anyChar)),
                  lit '')'']"

definition paramRx :: rx where
  "paramRx = Alt (Group 1 (seqs [OneOrMore (Chr notSpaceComma), lit ''('', LazyOneOrMore (Chr anyChar),
                                 lit '')'']))
                 (Group 2 (OneOrMore (Chr notSpaceComma)))"

text \<open>The loop over the parameters of one parameter list: \<open>d\<close> is the text of the
  definition as rewritten so far.\<close>
fun markParams :: "string \<Rightarrow> string list \<Rightarrow> nat \<Rightarrow> string \<times> registry \<Rightarrow> string \<times> registry" where
  "markParams name [] pos (d, reg) = (d, reg)"
| "markParams name (p # ps) pos (d, reg) =
     markParams name ps (Suc pos)
       (if contains (p @ ''('') d
        then (replaceFirst (p @ ''('') (p @ ''.call('') d, regSet name pos reg)
        else (d, reg))"

text \<open>The replacement function of the step: \<open>m\<close> is the definition matched, group 1 the
  function's name.\<close>
definition markDefinition :: "registry \<Rightarrow> string \<Rightarrow> captures \<Rightarrow> string \<times> registry" where
  "markDefinition reg m cs =
     fold (\<lambda>parameterList st.
             markParams (cap 1 cs) (map fst (matchAll paramRx parameterList)) 0 st)
          (map (\<lambda>(m', cs'). cap 1 cs') (matchAll declRx m))
          (m, reg)"

definition markHigherOrder :: "string \<Rightarrow> string \<times> registry" where
  "markHigherOrder code = replaceAllState defRx markDefinition [] code"

subsection \<open>Step 4: call sites\<close>

text \<open>\<open>/(.*(?<!def\s)mathematics\()((\w+(\([^()]+\))?(,\s)?)+)(\).+)/gmi\<close> and
  \<open>/\w+(\(.+\))?/gmi\<close>.\<close>
definition callRx :: rx where
  "callRx = seqs
     [Group 1 (seqs [Star (Chr anyChar),
                     NotBehind [ci (CHR ''d''), ci (CHR ''e''), ci (CHR ''f''), spaceChar],
                     lit ''mathematics('']),
      Group 2 (OneOrMore (Group 3 (seqs
        [OneOrMore (Chr wordChar),
         Optional (Group 4 (seqs [lit ''('', OneOrMore (Chr notParen), lit '')''])),
         Optional (Group 5 (Seq (lit '','') (Chr spaceChar)))]))),
      Group 6 (Seq (lit '')'') (OneOrMore (Chr anyChar)))]"

definition argRx :: rx where
  "argRx = Seq (OneOrMore (Chr wordChar))
               (Optional (Group 1 (seqs [lit ''('', OneOrMore (Chr anyChar), lit '')''])))"

text \<open>\<open>replacer\<close>: the state is the number of calls made so far, which is \<open>replacer.i\<close>
  after the increment. The call to \<open>console.log\<close> is left out.\<close>
definition replacer :: "nat \<Rightarrow> nat \<Rightarrow> string \<Rightarrow> captures \<Rightarrow> string \<times> nat" where
  "replacer pos i param cs =
     (if i = pos then ''method(:'' @ param @ '')'' else param, Suc i)"

definition rewriteCalls :: "nat \<Rightarrow> string \<Rightarrow> string" where
  "rewriteCalls pos code =
     fst (replaceAllState callRx
            (\<lambda>i m cs. case replaceAllState argRx (replacer pos) i (cap 2 cs) of
                          (params, i') \<Rightarrow> (cap 1 cs @ params @ cap 6 cs, i'))
            0 code)"

definition higherOrder :: "string \<Rightarrow> string" where
  "higherOrder code =
     (case markHigherOrder code of
        (code', reg) \<Rightarrow>
          fold (\<lambda>func c. rewriteCalls (the (map_of reg func)) c) (keysOf reg) code')"

subsection \<open>Step 5: increments\<close>

text \<open>\<open>/(\w+)\+\+/gmi\<close>, replaced by \<open>$1 += 1\<close>.\<close>
definition incrementRx :: rx where
  "incrementRx = Seq (Group 1 (OneOrMore (Chr wordChar))) (lit ''++'')"

definition incrementRewrite :: "string \<Rightarrow> string" where
  "incrementRewrite code = replaceAll incrementRx (\<lambda>m cs. cap 1 cs @ '' += 1'') code"

subsection \<open>Step 6: \<open>puts\<close>\<close>

text \<open>\<open>/puts\((.+)\)\n/gmi\<close>; an argument that does not start with a quote is wrapped.\<close>
definition putsRx :: rx where
  "putsRx = seqs [lit ''puts('', Group 1 (OneOrMore (Chr anyChar)), lit '')\<newline>'']"

definition stringify :: "string \<Rightarrow> string" where
  "stringify a =
     (if a = [] \<or> (hd a \<noteq> CHR 0x27 \<and> hd a \<noteq> CHR 0x22) then ''('' @ a @ '').to_s'' else a)"

definition putsRewrite :: "string \<Rightarrow> string" where
  "putsRewrite code =
     replaceAll putsRx
       (\<lambda>m cs. ''puts('' @ join '' + '' (map stringify (split '' + '' (cap 1 cs))) @ '')\<newline>'')
       code"

text \<open>\<open>correct(code)\<close>.\<close>
definition correct :: "regexp \<Rightarrow> (string \<times> string) list \<Rightarrow> string \<Rightarrow> error + string" where
  "correct re table code =
     bnd (applyTable re table code) (\<lambda>code1.
     Inr (putsRewrite (incrementRewrite (higherOrder (floorRewrite code1)))))"

section \<open>The transpiler object\<close>

record transpiler =
  buffer :: buffer
  corrections :: "(string \<times> string) list"

text \<open>The constructor: a fresh buffer and the table parsed from \<open>ruby.json\<close>. The argument
  is the table the file holds, \<open>None\<close> when the file cannot be read or is not JSON.\<close>
definition constructor :: "(string \<times> string) list option \<Rightarrow> error + transpiler" where
  "constructor file =
     (case file of
        None \<Rightarrow> Inl LoadError
      | Some table \<Rightarrow> Inr \<lparr>buffer = newBuffer, corrections = table\<rparr>)"

definition clear :: "transpiler \<Rightarrow> transpiler" where
  "clear tr = tr\<lparr>buffer := newBuffer\<rparr>"

text \<open>
  The exception of \<open>correct(node)\<close>, reached when a node has the tag \<open>correct\<close>: the first
  statement that runs is \<open>code.replace(new RegExp(key, 'gmi'), ...)\<close> for the first key of
  the table, or the \<open>Math.floor\<close> replacement when the table is empty. A node has no
  \<open>replace\<close>, and the arguments of a call are evaluated before the call is made: the
  \<open>SyntaxError\<close> of an invalid first pattern comes first, otherwise the call raises a
  \<open>TypeError\<close>. Every other exception is what it is.
\<close>
definition thrown :: "regexp \<Rightarrow> (string \<times> string) list \<Rightarrow> error \<Rightarrow> error" where
  "thrown re table e =
     (if e = NodeCorrected
      then (case table of
              [] \<Rightarrow> TypeError
            | (key, rep) # entries \<Rightarrow> if re key = None then SyntaxError key else TypeError)
      else e)"

text \<open>\<open>parse(node)\<close>: the corrected text, the node as the run leaves it and the object as
  the run leaves it. A call that raises gives the exception alone: the text left in the
  buffer and the rewrites made in the tree by then are not part of the result.\<close>
definition parse :: "regexp \<Rightarrow> node \<Rightarrow> transpiler \<Rightarrow> error + (string \<times> node \<times> transpiler)" where
  "parse re node tr =
     (case recursiveParse node (buffer tr) of
        Inl e \<Rightarrow> Inl (thrown re (corrections tr) e)
      | Inr (node', b) \<Rightarrow>
          bnd (correct re (corrections tr) (get b)) (\<lambda>code.
          Inr (code, node', tr\<lparr>buffer := b\<rparr>)))"

text \<open>What a call of \<open>parse\<close> hands back and leaves: the returned text, the node, and the raw
  text in the buffer.\<close>
definition outcome ::
  "error + (string \<times> node \<times> transpiler) \<Rightarrow> error + (string \<times> node \<times> string)" where
  "outcome r = (case r of Inl e \<Rightarrow> Inl e | Inr (code, n, tr) \<Rightarrow> Inr (code, n, get (buffer tr)))"

section \<open>The tree a run leaves behind\<close>

text \<open>
  The two rewrites of the desugaring rules, applied throughout a tree: a consequent that is
  not a block becomes a one-statement block holding it, and a \<open>for\<close> loop becomes the
  \<open>while\<close> loop with the same test whose body has the update expression appended. The
  object of a member expression is left alone when it has a name, and the property always,
  since they are not dispatched.
\<close>
fun rewritten :: "node \<Rightarrow> node" where
  "rewritten (IfStatement t c a) =
     IfStatement (rewritten t)
       (if tag c \<noteq> Some ''BlockStatement'' then BlockStatement [rewritten c] else rewritten c)
       (rewritten a)"
| "rewritten (ForStatement i t u body) =
     (case body of
        BlockStatement ss \<Rightarrow> WhileStatement (rewritten t) (BlockStatement (map rewritten (ss @ [u])))
      | Program ss \<Rightarrow> WhileStatement (rewritten t) (Program (map rewritten (ss @ [u])))
      | _ \<Rightarrow> ForStatement i t u body)"
| "rewritten (File p) = File (rewritten p)"
| "rewritten (Program ns) = Program (map rewritten ns)"
| "rewritten (ExpressionStatement e) = ExpressionStatement (rewritten e)"
| "rewritten (FunctionDeclaration i ps body) =
     FunctionDeclaration (rewritten i) (map rewritten ps) (rewritten body)"
| "rewritten (AssignmentExpression l opr r) = AssignmentExpression (rewritten l) opr (rewritten r)"
| "rewritten (BlockStatement ns) = BlockStatement (map rewritten ns)"
| "rewritten (VariableDeclaration ds) = VariableDeclaration (map rewritten ds)"
| "rewritten (VariableDeclarator i init) = VariableDeclarator (rewritten i) (rewritten init)"
| "rewritten (ReturnStatement a) = ReturnStatement (rewritten a)"
| "rewritten (CallExpression c as) = CallExpression (rewritten c) (map rewritten as)"
| "rewritten (MemberExpression obj computed prop) =
     MemberExpression (rewritten obj) computed prop"
| "rewritten (UnaryExpression pre opr a) = UnaryExpression pre opr (rewritten a)"
| "rewritten (BinaryExpression l opr r) = BinaryExpression (rewritten l) opr (rewritten r)"
| "rewritten (ConditionalExpression t c a) =
     ConditionalExpression (rewritten t) (rewritten c) (rewritten a)"
| "rewritten (LogicalExpression l opr r) = LogicalExpression (rewritten l) opr (rewritten r)"
| "rewritten (WhileStatement t body) = WhileStatement (rewritten t) (rewritten body)"
| "rewritten (DoWhileStatement body t) = DoWhileStatement (rewritten body) (rewritten t)"
| "rewritten (UpdateExpression pre opr a) = UpdateExpression pre opr (rewritten a)"
| "rewritten (ArrayExpression es) = ArrayExpression (map rewritten es)"
| "rewritten n = n"

section \<open>Notions used in the proofs\<close>

text \<open>A literal matches at the start of a text, whatever the case of its letters.\<close>
definition litMatches :: "string \<Rightarrow> string \<Rightarrow> bool" where
  "litMatches s rest = list_all2 ci s (take (length s) rest)"

text \<open>Patterns and frames without a lookbehind: their matches do not depend on the text
  before the position.\<close>
fun noLookbehind :: "rx \<Rightarrow> bool" where
  "noLookbehind (Chr p) = True"
| "noLookbehind Eps = True"
| "noLookbehind (Seq r1 r2) = (noLookbehind r1 \<and> noLookbehind r2)"
| "noLookbehind (Alt r1 r2) = (noLookbehind r1 \<and> noLookbehind r2)"
| "noLookbehind (Star r) = noLookbehind r"
| "noLookbehind (LazyStar r) = noLookbehind r"
| "noLookbehind (Group n r) = noLookbehind r"
| "noLookbehind (NotBehind ps) = False"

fun plainFrame :: "frame \<Rightarrow> bool" where
  "plainFrame (Match r) = noLookbehind r"
| "plainFrame (Again r n) = noLookbehind r"
| "plainFrame (LazyAgain r n) = noLookbehind r"
| "plainFrame (Close n start) = True"




section \<open>Properties of the dispatch engine\<close>

lemmas buffer_defs = add_def newline_def indent_def dedent_def trim_def stripRight_def
  isSpace_def get_def newBuffer_def indentUnit_def deleteLines_def emitted_def

subsection \<open>Bare consequents\<close>

text \<open>
  Claim C1, as the code has it: for every \<open>IfStatement\<close> whose consequent is not a block,
  translation gives exactly the result (node and buffer) of translating the same statement
  with the consequent wrapped in a one-statement block that holds the consequent statement
  itself. \<open>Object.assign(tempNode, node.consequent)\<close> copies the consequent's own \<open>type\<close>
  over the \<open>ReturnStatement\<close> tag the temporary node starts with, so no return is
  added.
\<close>
theorem if_bare_consequent:
  "tag c \<noteq> Some ''BlockStatement'' \<Longrightarrow>
   recursiveParse (IfStatement t c a) b = recursiveParse (IfStatement t (BlockStatement [c]) a) b"
  by (cases c) (auto intro!: bnd_cong)

theorem if_bare_consequent_witness:
  "tag (ExpressionStatement (Identifier ''y'')) \<noteq> Some ''BlockStatement'' \<and>
   emitted (recursiveParse
     (IfStatement (Identifier ''x'') (BlockStatement [ExpressionStatement (Identifier ''y'')]) Null)
     newBuffer) = Inr ''if x\<newline>  y\<newline>end\<newline>'' \<and>
   emitted (recursiveParse
     (IfStatement (Identifier ''x'') (ExpressionStatement (Identifier ''y'')) Null)
     newBuffer) = Inr ''if x\<newline>  y\<newline>end\<newline>''"
proof -
  have bare: "tag (ExpressionStatement (Identifier ''y'')) \<noteq> Some ''BlockStatement''"
    by simp
  have blocked: "emitted (recursiveParse
     (IfStatement (Identifier ''x'') (BlockStatement [ExpressionStatement (Identifier ''y'')]) Null)
     newBuffer) = Inr ''if x\<newline>  y\<newline>end\<newline>''"
    by (simp add: buffer_defs)
  show ?thesis
    using bare blocked if_bare_consequent [OF bare, of "Identifier ''x''" Null newBuffer]
    by simp
qed

text \<open>
  Claim C1 as stated fails: \<open>if (x) y;\<close> is not rendered like \<open>if (x) { return y }\<close>, nor
  like a block holding a return statement without argument.
\<close>
theorem if_bare_consequent_counterexample:
  "emitted (recursiveParse
     (IfStatement (Identifier ''x'') (ExpressionStatement (Identifier ''y'')) Null) newBuffer)
   \<noteq> emitted (recursiveParse
     (IfStatement (Identifier ''x'') (BlockStatement [ReturnStatement (Identifier ''y'')]) Null)
     newBuffer) \<and>
   emitted (recursiveParse
     (IfStatement (Identifier ''x'') (ExpressionStatement (Identifier ''y'')) Null) newBuffer)
   \<noteq> emitted (recursiveParse
     (IfStatement (Identifier ''x'') (BlockStatement [ReturnStatement Null]) Null) newBuffer)"
  by (simp add: buffer_defs)

subsection \<open>Counting loops\<close>




lemma parseEach_append:
  "parseEach (xs @ ys) b =
     bnd (parseEach xs b) (\<lambda>(xs', b1).
     bnd (parseEach ys b1) (\<lambda>(ys', b2). Inr (xs' @ ys', b2)))"
  by (induction xs arbitrary: b) (auto simp: bnd_def split: sum.splits prod.splits)




text \<open>With an expression as initializer the loop's text follows the initializer on the same
  line, where the statement \<open>i = 0;\<close> of the sequence ends its line.\<close>
lemma for_expression_initializer:
  "emitted (recursiveParse
     (ForStatement (AssignmentExpression (Identifier ''i'') ''='' (NumericLiteral ''0''))
        (BinaryExpression (Identifier ''i'') ''<'' (NumericLiteral ''3''))
        (UpdateExpression False ''++'' (Identifier ''i''))
        (BlockStatement []))
     newBuffer) = Inr ''i = 0while (i < 3)\<newline>  i++\<newline>end\<newline>'' \<and>
   emitted (recursiveParse
     (Program
        [ExpressionStatement (AssignmentExpression (Identifier ''i'') ''='' (NumericLiteral ''0'')),
         WhileStatement (BinaryExpression (Identifier ''i'') ''<'' (NumericLiteral ''3''))
           (BlockStatement [ExpressionStatement (UpdateExpression False ''++'' (Identifier ''i''))])])
     newBuffer) = Inr ''i = 0\<newline>while (i < 3)\<newline>  i++\<newline>end\<newline>''"
  by (simp add: buffer_defs)


subsection \<open>Binary expressions\<close>

lemma add_add: "add t (add s b) = add (s @ t) b"
  by (simp add: add_def)

text \<open>
  Claim C7: when dispatching the left operand appends the text \<open>lt\<close> and dispatching the
  right operand appends \<open>rt\<close>, dispatching the binary expression appends the left text,
  the operator between two spaces and the right text, where an operand's text stands in
  parentheses exactly when that operand is itself a binary expression; the operation adds
  no other character.
\<close>
theorem binary_parentheses:
  assumes l: "\<And>b. recursiveParse l b = Inr (l', add lt b)"
    and r: "\<And>b. recursiveParse r b = Inr (r', add rt b)"
  shows "recursiveParse (BinaryExpression l opr r) b =
         Inr (BinaryExpression l' opr r',
              add (wrapBinary l lt @ '' '' @ opr @ '' '' @ wrapBinary r rt) b)"
proof -
  have "l \<noteq> Null" using l [of b] by auto
  moreover have "r \<noteq> Null" using r [of b] by auto
  ultimately show ?thesis
    by (simp add: l r add_add wrapBinary_def)
qed

theorem binary_parentheses_witness:
  "(\<forall>b. recursiveParse (BinaryExpression (Identifier ''a'') ''+'' (Identifier ''b'')) b =
        Inr (BinaryExpression (Identifier ''a'') ''+'' (Identifier ''b''), add ''a + b'' b)) \<and>
   (\<forall>b. recursiveParse (Identifier ''c'') b = Inr (Identifier ''c'', add ''c'' b)) \<and>
   recursiveParse
     (BinaryExpression (BinaryExpression (Identifier ''a'') ''+'' (Identifier ''b'')) ''*''
        (Identifier ''c'')) newBuffer =
     Inr (BinaryExpression (BinaryExpression (Identifier ''a'') ''+'' (Identifier ''b'')) ''*''
            (Identifier ''c''),
          add ''(a + b) * c'' newBuffer)"
proof -
  have left: "\<And>b. recursiveParse (BinaryExpression (Identifier ''a'') ''+'' (Identifier ''b'')) b =
        Inr (BinaryExpression (Identifier ''a'') ''+'' (Identifier ''b''), add ''a + b'' b)"
    by (simp add: add_add)
  have right: "\<And>b. recursiveParse (Identifier ''c'') b = Inr (Identifier ''c'', add ''c'' b)"
    by simp
  show ?thesis
    using left right binary_parentheses [OF left right, of "''*''" newBuffer]
    by (simp add: wrapBinary_def)
qed


subsection \<open>Tags without an operation\<close>

lemma tag_in_members: "n \<noteq> Null \<Longrightarrow> (\<And>t. n \<noteq> Other t) \<Longrightarrow> \<exists>t. tag n = Some t \<and> t \<in> set members"
  by (cases n) (auto simp: members_def operations_def)

lemma callMember_unknown: "t \<notin> set members \<Longrightarrow> callMember t b = Inl TypeError"
  by (simp add: members_def operations_def otherMembers_def callMember_def)

text \<open>
  Claim C6, for a tag that names no property of the translator object: the dispatch raises
  the \<open>TypeError\<close> of calling \<open>undefined\<close> (the code has no error kind of its own for an
  unsupported construct), \<open>parse\<close> returns no text, and a program that reaches the node
  after statements that returned raises the same exception.
\<close>
theorem unknown_tag_raises:
  assumes "tag n = Some t" "t \<notin> set members"
  shows "recursiveParse n b = Inl TypeError \<and>
         parse re n tr = Inl TypeError \<and>
         (\<forall>pre pre' b0 post. parseEach pre b0 = Inr (pre', b) \<longrightarrow>
            recursiveParse (Program (pre @ n # post)) b0 = Inl TypeError)"
proof -
  have other: "n = Other t"
    using assms tag_in_members [of n] by (cases n) auto
  have here: "recursiveParse n b = Inl TypeError" for b
    using other callMember_unknown [OF assms(2)] by simp
  have "parse re n tr = Inl TypeError"
    by (simp add: parse_def here thrown_def)
  moreover have "recursiveParse (Program (pre @ n # post)) b0 = Inl TypeError"
    if "parseEach pre b0 = Inr (pre', b)" for pre pre' b0 post
    using that here by (simp add: parseEach_append del: recursiveParse.simps(2))
  ultimately show ?thesis
    using here by blast
qed

text \<open>The statement at the tag \<open>ClassDeclaration\<close>, alone and between two statements.\<close>
theorem unknown_tag_raises_witness:
  "tag (Other ''ClassDeclaration'') = Some ''ClassDeclaration'' \<and>
   ''ClassDeclaration'' \<notin> set members \<and>
   recursiveParse (Other ''ClassDeclaration'') (newline (add ''x'' newBuffer)) = Inl TypeError \<and>
   parse (\<lambda>k. None) (Other ''ClassDeclaration'') \<lparr>buffer = newBuffer, corrections = []\<rparr>
     = Inl TypeError \<and>
   parseEach [ExpressionStatement (Identifier ''x'')] newBuffer =
     Inr ([ExpressionStatement (Identifier ''x'')], newline (add ''x'' newBuffer)) \<and>
   recursiveParse
     (Program [ExpressionStatement (Identifier ''x''), Other ''ClassDeclaration'',
               ExpressionStatement (Identifier ''y'')]) newBuffer = Inl TypeError"
proof -
  have t: "tag (Other ''ClassDeclaration'') = Some ''ClassDeclaration''" by simp
  have m: "''ClassDeclaration'' \<notin> set members"
    by (simp add: members_def operations_def otherMembers_def)
  have before: "parseEach [ExpressionStatement (Identifier ''x'')] newBuffer =
     Inr ([ExpressionStatement (Identifier ''x'')], newline (add ''x'' newBuffer))"
    by simp
  have "recursiveParse
     (Program ([ExpressionStatement (Identifier ''x'')] @ Other ''ClassDeclaration'' #
               [ExpressionStatement (Identifier ''y'')])) newBuffer = Inl TypeError"
    using unknown_tag_raises [OF t m, of "newline (add ''x'' newBuffer)"] before by blast
  then show ?thesis
    using t m before
      unknown_tag_raises [OF t m, of "newline (add ''x'' newBuffer)" "\<lambda>k. None"
        "\<lparr>buffer = newBuffer, corrections = []\<rparr>"]
    by simp
qed

text \<open>
  Claim C6 as stated fails: \<open>toString\<close> and \<open>clear\<close> are not node operations, yet
  \<open>this[node.type]\<close> finds the inherited method and the method of the class. The dispatch of
  a node tagged \<open>toString\<close> returns with nothing emitted and \<open>parse\<close> returns the empty
  text; a node tagged \<open>clear\<close> in a program discards the text emitted before it and the
  translation goes on.
\<close>
theorem unknown_tag_raises_counterexample:
  "''toString'' \<notin> set operations \<and>
   recursiveParse (Other ''toString'') newBuffer = Inr (Other ''toString'', newBuffer) \<and>
   parse (\<lambda>k. None) (Other ''toString'') \<lparr>buffer = newBuffer, corrections = []\<rparr> =
     Inr ([], Other ''toString'', \<lparr>buffer = newBuffer, corrections = []\<rparr>) \<and>
   ''clear'' \<notin> set operations \<and>
   emitted (recursiveParse
     (Program [ExpressionStatement (Identifier ''x''), Other ''clear'',
               ExpressionStatement (Identifier ''y'')]) newBuffer) = Inr ''y\<newline>''"
proof -
  have dispatch: "recursiveParse (Other ''toString'') newBuffer = Inr (Other ''toString'', newBuffer)"
    by (simp add: callMember_def)
  have raw: "get newBuffer = []" by (simp add: get_def newBuffer_def)
  have corrected: "correct (\<lambda>k. None) [] [] = Inr []" by code_simp
  have p: "parse (\<lambda>k. None) (Other ''toString'') \<lparr>buffer = newBuffer, corrections = []\<rparr> =
     Inr ([], Other ''toString'', \<lparr>buffer = newBuffer, corrections = []\<rparr>)"
    by (simp add: parse_def dispatch raw corrected del: recursiveParse.simps)
  have c: "emitted (recursiveParse
     (Program [ExpressionStatement (Identifier ''x''), Other ''clear'',
               ExpressionStatement (Identifier ''y'')]) newBuffer) = Inr ''y\<newline>''"
    by (simp add: callMember_def buffer_defs)
  show ?thesis
    using dispatch p c by (simp add: operations_def)
qed


subsection \<open>The caller's tree\<close>

lemma nameOf_rewritten: "nameOf obj = Some n \<Longrightarrow> rewritten obj = obj"
  by (cases obj) (auto split: if_splits)

lemma recursiveParse_rewritten:
  "(\<forall>n' b'. recursiveParse n b = Inr (n', b') \<longrightarrow> n' = rewritten n)"
  "(\<forall>ns' b'. parseEach ns b = Inr (ns', b') \<longrightarrow> ns' = map rewritten ns)"
  "(\<forall>ns' b'. parseMore ns b = Inr (ns', b') \<longrightarrow> ns' = map rewritten ns)"
proof (induction n b and ns b and ns b rule: recursiveParse_parseEach_parseMore.induct)
  case (19 t c a b)
  then show ?case
    by (cases "tag c = Some ''BlockStatement''")
       (auto simp: bnd_def split: sum.splits prod.splits if_splits)
next
  case (22 i t u body b)
  then show ?case
    by (cases body) (auto simp: bnd_def split: sum.splits prod.splits if_splits)
qed (auto simp: bnd_def Let_def nameOf_rewritten
       split: sum.splits prod.splits list.splits if_splits option.splits)

text \<open>
  Claim C2, as the code has it: a translation that returns leaves the caller's tree as
  \<open>rewritten\<close> describes it: unchanged but for the consequents wrapped into blocks and the
  \<open>for\<close> loops turned into \<open>while\<close> loops with the update appended to the body.
\<close>
theorem parse_rewrites_tree:
  "parse re n tr = Inr (code, n', tr') \<Longrightarrow> n' = rewritten n"
  using recursiveParse_rewritten(1) [of n "buffer tr"]
  by (auto simp: parse_def bnd_def split: sum.splits prod.splits)

theorem parse_rewrites_tree_witness:
  "parse (\<lambda>k. None)
     (IfStatement (Identifier ''x'') (ReturnStatement (NumericLiteral ''1'')) Null)
     \<lparr>buffer = newBuffer, corrections = []\<rparr> =
   Inr (''if x\<newline>  return 1\<newline>end\<newline>'',
        IfStatement (Identifier ''x'') (BlockStatement [ReturnStatement (NumericLiteral ''1'')]) Null,
        \<lparr>buffer = \<lparr>finished = [''if x'', ''  return 1'', ''end''], current = [], depth = 0\<rparr>,
         corrections = []\<rparr>) \<and>
   IfStatement (Identifier ''x'') (BlockStatement [ReturnStatement (NumericLiteral ''1'')]) Null =
   rewritten (IfStatement (Identifier ''x'') (ReturnStatement (NumericLiteral ''1'')) Null)"
proof -
  have dispatch: "recursiveParse
      (IfStatement (Identifier ''x'') (ReturnStatement (NumericLiteral ''1'')) Null) newBuffer =
    Inr (IfStatement (Identifier ''x'') (BlockStatement [ReturnStatement (NumericLiteral ''1'')]) Null,
         \<lparr>finished = [''if x'', ''  return 1'', ''end''], current = [], depth = 0\<rparr>)"
    by (simp add: buffer_defs)
  have raw: "get \<lparr>finished = [''if x'', ''  return 1'', ''end''], current = [], depth = 0\<rparr>
      = ''if x\<newline>  return 1\<newline>end\<newline>''"
    by (simp add: get_def)
  have corrected: "correct (\<lambda>k. None) [] ''if x\<newline>  return 1\<newline>end\<newline>''
      = Inr ''if x\<newline>  return 1\<newline>end\<newline>''"
    by code_simp
  have run: "parse (\<lambda>k. None)
     (IfStatement (Identifier ''x'') (ReturnStatement (NumericLiteral ''1'')) Null)
     \<lparr>buffer = newBuffer, corrections = []\<rparr> =
   Inr (''if x\<newline>  return 1\<newline>end\<newline>'',
        IfStatement (Identifier ''x'') (BlockStatement [ReturnStatement (NumericLiteral ''1'')]) Null,
        \<lparr>buffer = \<lparr>finished = [''if x'', ''  return 1'', ''end''], current = [], depth = 0\<rparr>,
         corrections = []\<rparr>)"
    by (simp add: parse_def dispatch raw corrected del: recursiveParse.simps)
  show ?thesis
    using run parse_rewrites_tree [OF run] by blast
qed

text \<open>
  Claim C2 as stated fails: translating a \<open>for\<close> loop changes the loop node itself, and
  this is not the wrapping of a consequent.
\<close>
theorem parse_rewrites_tree_counterexample:
  "map_sum id (fst \<circ> snd)
     (parse (\<lambda>k. None)
        (ForStatement (AssignmentExpression (Identifier ''i'') ''='' (NumericLiteral ''0''))
           (BinaryExpression (Identifier ''i'') ''<'' (NumericLiteral ''3''))
           (UpdateExpression False ''++'' (Identifier ''i''))
           (BlockStatement []))
        \<lparr>buffer = newBuffer, corrections = []\<rparr>) =
   Inr (WhileStatement (BinaryExpression (Identifier ''i'') ''<'' (NumericLiteral ''3''))
          (BlockStatement [UpdateExpression False ''++'' (Identifier ''i'')])) \<and>
   WhileStatement (BinaryExpression (Identifier ''i'') ''<'' (NumericLiteral ''3''))
     (BlockStatement [UpdateExpression False ''++'' (Identifier ''i'')]) \<noteq>
   ForStatement (AssignmentExpression (Identifier ''i'') ''='' (NumericLiteral ''0''))
     (BinaryExpression (Identifier ''i'') ''<'' (NumericLiteral ''3''))
     (UpdateExpression False ''++'' (Identifier ''i''))
     (BlockStatement [])"
proof -
  have dispatch: "recursiveParse
        (ForStatement (AssignmentExpression (Identifier ''i'') ''='' (NumericLiteral ''0''))
           (BinaryExpression (Identifier ''i'') ''<'' (NumericLiteral ''3''))
           (UpdateExpression False ''++'' (Identifier ''i''))
           (BlockStatement [])) newBuffer =
     Inr (WhileStatement (BinaryExpression (Identifier ''i'') ''<'' (NumericLiteral ''3''))
            (BlockStatement [UpdateExpression False ''++'' (Identifier ''i'')]),
          \<lparr>finished = [''i = 0while (i < 3)'', ''  i++'', ''end''], current = [], depth = 0\<rparr>)"
    by (simp add: buffer_defs)
  have raw: "get \<lparr>finished = [''i = 0while (i < 3)'', ''  i++'', ''end''], current = [], depth = 0\<rparr>
      = ''i = 0while (i < 3)\<newline>  i++\<newline>end\<newline>''"
    by (simp add: get_def)
  have corrected: "correct (\<lambda>k. None) [] ''i = 0while (i < 3)\<newline>  i++\<newline>end\<newline>''
      = Inr ''i = 0while (i < 3)\<newline>  i += 1\<newline>end\<newline>''"
    by code_simp
  show ?thesis
    by (simp add: parse_def dispatch raw corrected del: recursiveParse.simps)
qed

section \<open>Properties of the transpiler object\<close>

subsection \<open>Invalid patterns in the table\<close>

text \<open>
  Claim C5, as the code has it: the constructor only reads the table and succeeds whatever
  its patterns are. When \<open>key\<close> is the first pattern of the table that is not a valid regular
  expression, every translation run whose dispatch returns fails in the correction pass,
  with the \<open>SyntaxError\<close> of \<open>new RegExp(key, 'gmi')\<close>.
\<close>
theorem invalid_pattern_is_lazy:
  assumes "find (\<lambda>k. re k = None) (map fst table) = Some key"
  shows "constructor (Some table) = Inr \<lparr>buffer = newBuffer, corrections = table\<rparr> \<and>
         (\<forall>n n' b. recursiveParse n newBuffer = Inr (n', b) \<longrightarrow>
            parse re n \<lparr>buffer = newBuffer, corrections = table\<rparr> = Inl (SyntaxError key))"
proof -
  have "applyTable re table code = Inl (SyntaxError key)" for code
    using assms by (induction re table code rule: applyTable.induct) (auto split: option.splits)
  then show ?thesis
    by (auto simp: constructor_def parse_def correct_def)
qed

theorem invalid_pattern_is_lazy_witness:
  "find (\<lambda>k. (if k = ''('' then None else Some (\<lambda>rep code. code)) = None)
        (map fst [(''puts'', ''print''), (''('', ''x'')]) = Some ''('' \<and>
   constructor (Some [(''puts'', ''print''), (''('', ''x'')]) =
     Inr \<lparr>buffer = newBuffer, corrections = [(''puts'', ''print''), (''('', ''x'')]\<rparr> \<and>
   recursiveParse (Identifier ''y'') newBuffer = Inr (Identifier ''y'', add ''y'' newBuffer) \<and>
   parse (\<lambda>k. if k = ''('' then None else Some (\<lambda>rep code. code)) (Identifier ''y'')
     \<lparr>buffer = newBuffer, corrections = [(''puts'', ''print''), (''('', ''x'')]\<rparr> =
     Inl (SyntaxError ''('')"
proof -
  have first: "find (\<lambda>k. (if k = ''('' then None else Some (\<lambda>rep code. code)) = None)
        (map fst [(''puts'', ''print''), (''('', ''x'')]) = Some ''(''"
    by simp
  have run: "recursiveParse (Identifier ''y'') newBuffer = Inr (Identifier ''y'', add ''y'' newBuffer)"
    by simp
  show ?thesis
    using first run invalid_pattern_is_lazy [OF first] by blast
qed

text \<open>
  Claim C5 as stated fails: with the invalid pattern \<open>(\<close> in the table the constructor
  returns an object, and the error is raised by a later call of \<open>parse\<close>.
\<close>
theorem invalid_pattern_counterexample:
  "constructor (Some [(''('', ''x'')]) = Inr \<lparr>buffer = newBuffer, corrections = [(''('', ''x'')]\<rparr> \<and>
   parse (\<lambda>k. if k = ''('' then None else Some (\<lambda>rep code. code)) (Identifier ''y'')
     \<lparr>buffer = newBuffer, corrections = [(''('', ''x'')]\<rparr> = Inl (SyntaxError ''('')"
  by (simp add: constructor_def parse_def correct_def)

subsection \<open>The buffer between two calls\<close>

text \<open>
  Claim C10, for calls that return: \<open>parse\<close> never resets the buffer. Let the dispatch of the
  root append the text \<open>t1\<close> (leaving the tree \<open>n1\<close>), and the dispatch of \<open>n1\<close> append the
  text \<open>t2\<close>. On a new translator the first call returns the correction of \<open>t1\<close>; a second
  call on the same root then returns the correction of \<open>t1\<close> followed by \<open>t2\<close>, the two texts
  being corrected as one; after \<open>clear()\<close> it returns the correction of \<open>t2\<close> alone.
\<close>
theorem parse_twice:
  assumes first: "\<And>b. depth b = 0 \<Longrightarrow>
      \<exists>b'. recursiveParse n b = Inr (n1, b') \<and> get b' = get b @ t1 \<and> depth b' = 0"
    and second: "\<And>b. depth b = 0 \<Longrightarrow>
      \<exists>b'. recursiveParse n1 b = Inr (n2, b') \<and> get b' = get b @ t2 \<and> depth b' = 0"
    and c1: "correct re table t1 = Inr code1"
    and c12: "correct re table (t1 @ t2) = Inr code12"
    and c2: "correct re table t2 = Inr code2"
  shows "outcome (parse re n \<lparr>buffer = newBuffer, corrections = table\<rparr>) = Inr (code1, n1, t1) \<and>
         (\<forall>tr1. parse re n \<lparr>buffer = newBuffer, corrections = table\<rparr> = Inr (code1, n1, tr1) \<longrightarrow>
            outcome (parse re n1 tr1) = Inr (code12, n2, t1 @ t2) \<and>
            outcome (parse re n1 (clear tr1)) = Inr (code2, n2, t2))"
proof -
  have fresh: "depth newBuffer = 0" "get newBuffer = []"
    by (simp_all add: newBuffer_def get_def)
  obtain b1 where b1: "recursiveParse n newBuffer = Inr (n1, b1)" "get b1 = t1" "depth b1 = 0"
    using first [of newBuffer] fresh by auto
  obtain b2 where b2: "recursiveParse n1 b1 = Inr (n2, b2)" "get b2 = t1 @ t2"
    using second [of b1] b1 by auto
  obtain b3 where b3: "recursiveParse n1 newBuffer = Inr (n2, b3)" "get b3 = t2"
    using second [of newBuffer] fresh by auto
  have p1: "parse re n \<lparr>buffer = newBuffer, corrections = table\<rparr> =
            Inr (code1, n1, \<lparr>buffer = b1, corrections = table\<rparr>)"
    by (simp add: parse_def b1 c1)
  have p2: "outcome (parse re n1 \<lparr>buffer = b1, corrections = table\<rparr>) = Inr (code12, n2, t1 @ t2)"
    by (simp add: parse_def outcome_def b2 c12)
  have p3: "outcome (parse re n1 (clear \<lparr>buffer = b1, corrections = table\<rparr>)) = Inr (code2, n2, t2)"
    by (simp add: parse_def outcome_def clear_def b3 c2)
  show ?thesis
    using p1 p2 p3 b1(2) by (simp add: outcome_def)
qed

text \<open>Two calls on the statement \<open>x;\<close>: the first returns one line, the second two lines,
  and the second after \<open>clear()\<close> one line.\<close>
theorem parse_twice_witness:
  "outcome (parse (\<lambda>k. None) (ExpressionStatement (Identifier ''x''))
     \<lparr>buffer = newBuffer, corrections = []\<rparr>) =
     Inr (''x\<newline>'', ExpressionStatement (Identifier ''x''), ''x\<newline>'') \<and>
   parse (\<lambda>k. None) (ExpressionStatement (Identifier ''x''))
     \<lparr>buffer = newBuffer, corrections = []\<rparr> =
     Inr (''x\<newline>'', ExpressionStatement (Identifier ''x''),
          \<lparr>buffer = \<lparr>finished = [''x''], current = [], depth = 0\<rparr>, corrections = []\<rparr>) \<and>
   outcome (parse (\<lambda>k. None) (ExpressionStatement (Identifier ''x''))
     \<lparr>buffer = \<lparr>finished = [''x''], current = [], depth = 0\<rparr>, corrections = []\<rparr>) =
     Inr (''x\<newline>x\<newline>'', ExpressionStatement (Identifier ''x''), ''x\<newline>x\<newline>'') \<and>
   outcome (parse (\<lambda>k. None) (ExpressionStatement (Identifier ''x''))
     (clear \<lparr>buffer = \<lparr>finished = [''x''], current = [], depth = 0\<rparr>, corrections = []\<rparr>)) =
     Inr (''x\<newline>'', ExpressionStatement (Identifier ''x''), ''x\<newline>'')"
proof -
  have emits: "\<And>b. depth b = 0 \<Longrightarrow>
      \<exists>b'. recursiveParse (ExpressionStatement (Identifier ''x'')) b =
              Inr (ExpressionStatement (Identifier ''x''), b') \<and>
           get b' = get b @ ''x\<newline>'' \<and> depth b' = 0"
    by (simp add: buffer_defs)
  have one: "correct (\<lambda>k. None) [] ''x\<newline>'' = Inr ''x\<newline>''"
    by code_simp
  have two: "correct (\<lambda>k. None) [] (''x\<newline>'' @ ''x\<newline>'') = Inr ''x\<newline>x\<newline>''"
    by code_simp
  have first: "parse (\<lambda>k. None) (ExpressionStatement (Identifier ''x''))
     \<lparr>buffer = newBuffer, corrections = []\<rparr> =
     Inr (''x\<newline>'', ExpressionStatement (Identifier ''x''),
          \<lparr>buffer = \<lparr>finished = [''x''], current = [], depth = 0\<rparr>, corrections = []\<rparr>)"
    by (simp add: parse_def buffer_defs one)
  show ?thesis
    using first parse_twice [OF emits emits one two one] by simp
qed

text \<open>
  Claim C10 as stated fails at the empty program: nothing is emitted, so two calls on the same
  translator return equal outputs with no \<open>clear()\<close> between them.
\<close>
theorem parse_twice_counterexample:
  "parse (\<lambda>k. None) (Program []) \<lparr>buffer = newBuffer, corrections = []\<rparr> =
     Inr ([], Program [], \<lparr>buffer = newBuffer, corrections = []\<rparr>) \<and>
   bnd (parse (\<lambda>k. None) (Program []) \<lparr>buffer = newBuffer, corrections = []\<rparr>)
     (\<lambda>(code1, n1, tr1). bnd (parse (\<lambda>k. None) n1 tr1)
     (\<lambda>(code2, n2, tr2). Inr (code1, code2))) = Inr ([], [])"
proof -
  have raw: "get newBuffer = []" by (simp add: get_def newBuffer_def)
  have corrected: "correct (\<lambda>k. None) [] [] = Inr []" by code_simp
  have p: "parse (\<lambda>k. None) (Program []) \<lparr>buffer = newBuffer, corrections = []\<rparr> =
     Inr ([], Program [], \<lparr>buffer = newBuffer, corrections = []\<rparr>)"
    by (simp add: parse_def raw corrected)
  show ?thesis
    by (simp add: p)
qed

text \<open>
  The texts of two runs are corrected as one: a function declared in the second run has its
  call sites rewritten in the text of the first, so the output of the second call need not
  begin with the output of the first.
\<close>
lemma later_run_rewrites_earlier_text:
  "map_sum id fst
     (parse (\<lambda>k. None)
        (ExpressionStatement (BinaryExpression
           (CallExpression (Identifier ''mathematics'') [Identifier ''p'']) ''+''
           (NumericLiteral ''1'')))
        \<lparr>buffer = newBuffer, corrections = []\<rparr>) = Inr ''mathematics(p) + 1\<newline>'' \<and>
   map_sum id fst
     (parse (\<lambda>k. None)
        (FunctionDeclaration (Identifier ''f'') [Identifier ''a'']
           (BlockStatement
              [ReturnStatement (CallExpression (Identifier ''a'') [NumericLiteral ''1''])]))
        \<lparr>buffer = \<lparr>finished = [''mathematics(p) + 1''], current = [], depth = 0\<rparr>,
           corrections = []\<rparr>) =
     Inr ''mathematics(method(:p)) + 1\<newline>def f(a)\<newline>  return a.call(1)\<newline>end\<newline>\<newline>''"
proof -
  have dispatch1: "recursiveParse
        (ExpressionStatement (BinaryExpression
           (CallExpression (Identifier ''mathematics'') [Identifier ''p'']) ''+''
           (NumericLiteral ''1''))) newBuffer =
      Inr (ExpressionStatement (BinaryExpression
           (CallExpression (Identifier ''mathematics'') [Identifier ''p'']) ''+''
           (NumericLiteral ''1'')),
           \<lparr>finished = [''mathematics(p) + 1''], current = [], depth = 0\<rparr>)"
    by (simp add: buffer_defs)
  have raw1: "get \<lparr>finished = [''mathematics(p) + 1''], current = [], depth = 0\<rparr> =
      ''mathematics(p) + 1\<newline>''"
    by (simp add: get_def)
  have corrected1: "correct (\<lambda>k. None) [] ''mathematics(p) + 1\<newline>'' =
      Inr ''mathematics(p) + 1\<newline>''"
    by code_simp
  have dispatch2: "\<exists>b. recursiveParse
        (FunctionDeclaration (Identifier ''f'') [Identifier ''a'']
           (BlockStatement
              [ReturnStatement (CallExpression (Identifier ''a'') [NumericLiteral ''1''])]))
        \<lparr>finished = [''mathematics(p) + 1''], current = [], depth = 0\<rparr> =
      Inr (FunctionDeclaration (Identifier ''f'') [Identifier ''a'']
           (BlockStatement
              [ReturnStatement (CallExpression (Identifier ''a'') [NumericLiteral ''1''])]), b) \<and>
      get b = ''mathematics(p) + 1\<newline>def f(a)\<newline>  return a(1)\<newline>end\<newline>\<newline>''"
    by (simp add: buffer_defs)
  have corrected2: "correct (\<lambda>k. None) []
        ''mathematics(p) + 1\<newline>def f(a)\<newline>  return a(1)\<newline>end\<newline>\<newline>'' =
      Inr ''mathematics(method(:p)) + 1\<newline>def f(a)\<newline>  return a.call(1)\<newline>end\<newline>\<newline>''"
    by code_simp
  have one: "map_sum id fst
     (parse (\<lambda>k. None)
        (ExpressionStatement (BinaryExpression
           (CallExpression (Identifier ''mathematics'') [Identifier ''p'']) ''+''
           (NumericLiteral ''1'')))
        \<lparr>buffer = newBuffer, corrections = []\<rparr>) = Inr ''mathematics(p) + 1\<newline>''"
    by (simp add: parse_def dispatch1 raw1 corrected1 del: recursiveParse.simps)
  obtain b where b: "recursiveParse
        (FunctionDeclaration (Identifier ''f'') [Identifier ''a'']
           (BlockStatement
              [ReturnStatement (CallExpression (Identifier ''a'') [NumericLiteral ''1''])]))
        \<lparr>finished = [''mathematics(p) + 1''], current = [], depth = 0\<rparr> =
      Inr (FunctionDeclaration (Identifier ''f'') [Identifier ''a'']
           (BlockStatement
              [ReturnStatement (CallExpression (Identifier ''a'') [NumericLiteral ''1''])]), b)"
    and raw2: "get b = ''mathematics(p) + 1\<newline>def f(a)\<newline>  return a(1)\<newline>end\<newline>\<newline>''"
    using dispatch2 by blast
  have two: "map_sum id fst
     (parse (\<lambda>k. None)
        (FunctionDeclaration (Identifier ''f'') [Identifier ''a'']
           (BlockStatement
              [ReturnStatement (CallExpression (Identifier ''a'') [NumericLiteral ''1''])]))
        \<lparr>buffer = \<lparr>finished = [''mathematics(p) + 1''], current = [], depth = 0\<rparr>,
           corrections = []\<rparr>) =
     Inr ''mathematics(method(:p)) + 1\<newline>def f(a)\<newline>  return a.call(1)\<newline>end\<newline>\<newline>''"
    by (simp add: parse_def b raw2 corrected2 del: recursiveParse.simps)
  show ?thesis
    using one two by blast
qed


section \<open>The matcher on the patterns of the pipeline\<close>

lemma run_star_chr:
  "run (Match (Star (Chr p)) # k) (bef, rest, cs) =
    (case rest of
       [] \<Rightarrow> run k (bef, rest, cs)
     | c # r \<Rightarrow>
         if p c
         then (case run (Match (Star (Chr p)) # k) (c # bef, r, cs) of
                 Some e \<Rightarrow> Some e
               | None \<Rightarrow> run k (bef, rest, cs))
         else run k (bef, rest, cs))"
  by (subst run.simps(6)) (simp split: list.splits del: run.simps(6))

declare run.simps(6) [simp del]

lemma option_case_id: "(case x of None \<Rightarrow> None | Some e \<Rightarrow> Some e) = x"
  by (cases x) simp_all

text \<open>A greedy run of a class, when what follows cannot start with a character of the class.\<close>
lemma run_star_chr_skip:
  assumes "\<And>bef c r cs. p c \<Longrightarrow> run k (bef, c # r, cs) = None"
  shows "run (Match (Star (Chr p)) # k) (bef, rest, cs) =
         run k (rev (takeWhile p rest) @ bef, dropWhile p rest, cs)"
proof (induction rest arbitrary: bef)
  case Nil
  show ?case by (subst run_star_chr) simp
next
  case (Cons c r)
  show ?case
  proof (cases "p c")
    case True
    have "run (Match (Star (Chr p)) # k) (bef, c # r, cs) =
          run (Match (Star (Chr p)) # k) (c # bef, r, cs)"
      by (subst run_star_chr) (simp add: True assms split: option.splits)
    then show ?thesis
      by (simp add: Cons.IH True)
  next
    case False
    then show ?thesis by (subst run_star_chr) simp
  qed
qed

lemma seqs_Cons2: "rs \<noteq> [] \<Longrightarrow> seqs (r # rs) = Seq r (seqs rs)"
  by (cases rs) simp_all

lemma run_chars:
  "run (Match (seqs (map (\<lambda>c. Chr (ci c)) s)) # k) (bef, rest, cs) =
     (if litMatches s rest
      then run k (rev (take (length s) rest) @ bef, drop (length s) rest, cs)
      else None)"
proof (induction s arbitrary: bef rest)
  case Nil
  show ?case by (simp add: litMatches_def)
next
  case (Cons c s)
  show ?case
  proof (cases "s = []")
    case True
    then show ?thesis
      by (cases rest) (auto simp: litMatches_def)
  next
    case False
    then have "seqs (map (\<lambda>c. Chr (ci c)) (c # s)) = Seq (Chr (ci c)) (seqs (map (\<lambda>c. Chr (ci c)) s))"
      by (simp add: seqs_Cons2)
    then show ?thesis
      by (cases rest) (simp_all add: litMatches_def Cons.IH)
  qed
qed

lemma run_lit:
  "run (Match (lit s) # k) (bef, rest, cs) =
     (if litMatches s rest
      then run k (rev (take (length s) rest) @ bef, drop (length s) rest, cs)
      else None)"
  by (simp add: lit_def run_chars)


declare scan.simps [simp del]


lemma remaining_snd: "remaining s = length (fst (snd s))"
  by (cases s) simp

lemma first_of_two:
  assumes "map_option snd a = map_option snd a'"
    and "a = None \<Longrightarrow> map_option snd b = map_option snd b'"
  shows "map_option snd (case a of Some e \<Rightarrow> Some e | None \<Rightarrow> b) =
         map_option snd (case a' of Some e \<Rightarrow> Some e | None \<Rightarrow> b')"
  using assms by (cases a; cases a') auto

lemma run_before:
  "list_all plainFrame k \<Longrightarrow> snd s = snd s' \<Longrightarrow>
   map_option snd (run k s) = map_option snd (run k s')"
proof (induction k s arbitrary: s' rule: run.induct)
  case (1 s)
  then show ?case by simp
next
  case (2 p k bef rest cs)
  obtain bef' where s': "s' = (bef', rest, cs)"
    using 2(3) by (cases s') simp
  show ?case
  proof (cases rest)
    case Nil
    then show ?thesis by (simp add: s')
  next
    case (Cons c r)
    show ?thesis
    proof (cases "p c")
      case True
      have "map_option snd (run k (c # bef, r, cs)) = map_option snd (run k (c # bef', r, cs))"
        using 2(1) [OF Cons True, of "(c # bef', r, cs)"] 2(2) by simp
      then show ?thesis by (simp add: s' Cons True)
    next
      case False
      then show ?thesis by (simp add: s' Cons)
    qed
  qed
next
  case (3 k s)
  then show ?case by simp
next
  case (4 r1 r2 k s)
  then show ?case by simp
next
  case (5 r1 r2 k s)
  have a: "map_option snd (run (Match r1 # k) s) = map_option snd (run (Match r1 # k) s')"
    using 5(1) [of s'] 5(3,4) by simp
  have b: "run (Match r1 # k) s = None \<Longrightarrow>
      map_option snd (run (Match r2 # k) s) = map_option snd (run (Match r2 # k) s')"
    using 5(2) [of s'] 5(3,4) by simp
  show ?case
    using first_of_two [OF a b] by simp
next
  case (6 r k s)
  have rem: "remaining s' = remaining s"
    using 6(4) by (simp add: remaining_snd)
  have a: "map_option snd (run (Match r # Again r (remaining s) # k) s) =
           map_option snd (run (Match r # Again r (remaining s) # k) s')"
    using 6(1) [of s'] 6(3,4) by simp
  have b: "run (Match r # Again r (remaining s) # k) s = None \<Longrightarrow>
      map_option snd (run k s) = map_option snd (run k s')"
    using 6(2) [of s'] 6(3,4) by simp
  show ?case
    using first_of_two [OF a b] by (simp add: run.simps(6) rem)
next
  case (7 r n k s)
  have rem: "remaining s' = remaining s"
    using 7(3) by (simp add: remaining_snd)
  show ?case
    using 7(1) [of s'] 7(2,3) by (simp add: rem)
next
  case (8 r k s)
  have rem: "remaining s' = remaining s"
    using 8(4) by (simp add: remaining_snd)
  have a: "map_option snd (run k s) = map_option snd (run k s')"
    using 8(1) [of s'] 8(3,4) by simp
  have b: "run k s = None \<Longrightarrow>
      map_option snd (run (Match r # LazyAgain r (remaining s) # k) s) =
      map_option snd (run (Match r # LazyAgain r (remaining s) # k) s')"
    using 8(2) [of s'] 8(3,4) by simp
  show ?case
    unfolding run.simps(8) rem using first_of_two [OF a b] by simp
next
  case (9 r n k s)
  have rem: "remaining s' = remaining s"
    using 9(3) by (simp add: remaining_snd)
  show ?case
    using 9(1) [of s'] 9(2,3) by (simp add: rem)
next
  case (10 n r k bef rest cs)
  then show ?case by (cases s') auto
next
  case (11 n start k bef rest cs)
  then show ?case by (cases s') auto
next
  case (12 ps k bef rest cs)
  then show ?case by simp
qed

lemma firstMatch_before:
  assumes "noLookbehind r"
  shows "firstMatch r bef rest = firstMatch r bef' rest"
proof -
  have "map_option snd (run [Match r] (bef, rest, [])) =
        map_option snd (run [Match r] (bef', rest, []))"
    using assms by (intro run_before) simp_all
  then show ?thesis
    by (cases "run [Match r] (bef, rest, [])"; cases "run [Match r] (bef', rest, [])")
       (auto simp: firstMatch_def)
qed

lemma scan_before:
  assumes "noLookbehind r"
  shows "scan r bef rest = scan r bef' rest"
proof (induction rest arbitrary: bef bef' rule: length_induct)
  case (1 rest)
  have fm: "firstMatch r bef rest = firstMatch r bef' rest"
    using assms by (rule firstMatch_before)
  have tail: "(case rest of [] \<Rightarrow> [] | c # rest1 \<Rightarrow> Inl c # scan r (c # bef) rest1) =
              (case rest of [] \<Rightarrow> [] | c # rest1 \<Rightarrow> Inl c # scan r (c # bef') rest1)"
  proof (cases rest)
    case Nil
    then show ?thesis by simp
  next
    case (Cons c rest1)
    then have "length rest1 < length rest" by simp
    then have "scan r (c # bef) rest1 = scan r (c # bef') rest1"
      using 1 by blast
    then show ?thesis using Cons by simp
  qed
  show ?case
  proof (cases "firstMatch r bef' rest")
    case None
    then show ?thesis
      using fm tail by (subst scan.simps, subst (2) scan.simps) simp
  next
    case (Some hit)
    obtain m rest' cs where hit: "hit = (m, rest', cs)" by (cases hit)
    show ?thesis
    proof (cases "length rest' < length rest")
      case True
      then have "scan r (rev m @ bef) rest' = scan r (rev m @ bef') rest'"
        using 1 by blast
      then show ?thesis
        using fm Some hit True by (subst scan.simps, subst (2) scan.simps) simp
    next
      case False
      then show ?thesis
        using fm Some hit tail by (subst scan.simps, subst (2) scan.simps) simp
    qed
  qed
qed

lemma noLookbehind_seqs: "list_all noLookbehind rs \<Longrightarrow> noLookbehind (seqs rs)"
  by (induction rs rule: seqs.induct) simp_all

lemma noLookbehind_lit: "noLookbehind (lit s)"
  by (simp add: lit_def noLookbehind_seqs list_all_iff)

lemma noLookbehind_putsRx: "noLookbehind putsRx"
  by (simp add: putsRx_def OneOrMore_def noLookbehind_lit)

subsection \<open>The increment pattern\<close>

lemma toLower_plus: "toLower c = CHR ''+'' \<longleftrightarrow> c = CHR ''+''"
proof
  assume a: "toLower c = CHR ''+''"
  show "c = CHR ''+''"
  proof (rule ccontr)
    assume n: "c \<noteq> CHR ''+''"
    then have up: "65 \<le> (of_char c :: nat) \<and> (of_char c :: nat) \<le> 90"
      using a by (auto simp: toLower_def Let_def split: if_splits)
    then have "toLower c = char_of ((of_char c :: nat) + 32)"
      by (simp add: toLower_def Let_def)
    then have "(of_char (toLower c) :: nat) = ((of_char c :: nat) + 32) mod 256"
      by simp
    with a up show False by simp
  qed
next
  assume "c = CHR ''+''"
  then show "toLower c = CHR ''+''" by (simp add: toLower_def)
qed

lemma ci_plus: "ci (CHR ''+'') x = (x = CHR ''+'')"
  using toLower_plus [of x] by (simp add: ci_def toLower_def)

lemma wordChar_not_plus: "wordChar c \<Longrightarrow> c \<noteq> CHR ''+''"
  by (auto simp: wordChar_def)

lemma litMatches_plusplus: "litMatches ''++'' d = (take 2 d = ''++'')"
proof (cases d)
  case Nil
  then show ?thesis by (simp add: litMatches_def)
next
  case (Cons a d')
  then show ?thesis
    by (cases d') (auto simp: litMatches_def ci_plus)
qed

lemma take_diff_append: "take (length (xs @ ys) - length ys) (xs @ ys) = xs"
  by simp

lemma take_len_dropWhile: "take (length xs - length (dropWhile P xs)) xs = takeWhile P xs"
  using take_diff_append [of "takeWhile P xs" "dropWhile P xs"] by simp

lemma take_len_drop_dropWhile:
  "take (length xs - (length (dropWhile P xs) - n)) xs = takeWhile P xs @ take n (dropWhile P xs)"
proof -
  have "xs = (takeWhile P xs @ take n (dropWhile P xs)) @ drop n (dropWhile P xs)"
    by simp
  then show ?thesis
    using take_diff_append [of "takeWhile P xs @ take n (dropWhile P xs)" "drop n (dropWhile P xs)"]
    by simp
qed

text \<open>\<open>(c+)\<close> for a class \<open>c\<close>, when what follows cannot start with a character of the
  class: the group takes the longest run.\<close>
lemma run_plus_chr_skip:
  assumes "\<And>bef c r cs. p c \<Longrightarrow> run k (bef, c # r, cs) = None"
  shows "run (Match (OneOrMore (Chr p)) # k) (bef, rest, cs) =
         (if takeWhile p rest = [] then None
          else run k (rev (takeWhile p rest) @ bef, dropWhile p rest, cs))"
  by (cases rest) (simp_all add: OneOrMore_def run_star_chr_skip [OF assms])

lemma run_group_plus_chr_skip:
  assumes "\<And>bef c r cs. p c \<Longrightarrow> run k (bef, c # r, cs) = None"
  shows "run (Match (OneOrMore (Chr p)) # Close n rest # k) (bef, rest, cs) =
         (if takeWhile p rest = [] then None
          else run k (rev (takeWhile p rest) @ bef, dropWhile p rest,
                      (n, takeWhile p rest) # cs))"
proof -
  have fail: "\<And>bef c r cs. p c \<Longrightarrow> run (Close n rest # k) (bef, c # r, cs) = None"
    by (simp add: assms)
  show ?thesis
    by (simp add: run_plus_chr_skip [OF fail] take_len_dropWhile)
qed

text \<open>The match of the increment pattern at a position: the longest run of word
  characters there, when it is not empty and \<open>++\<close> follows.\<close>
lemma increment_first:
  "firstMatch incrementRx bef rest =
     (if takeWhile wordChar rest \<noteq> [] \<and> take 2 (dropWhile wordChar rest) = ''++''
      then Some (takeWhile wordChar rest @ ''++'', drop 2 (dropWhile wordChar rest),
                 [(1, takeWhile wordChar rest)])
      else None)"
proof -
  have fail: "\<And>bef c r cs. wordChar c \<Longrightarrow> run [Match (lit ''++'')] (bef, c # r, cs) = None"
    by (auto simp: run_lit litMatches_plusplus dest: wordChar_not_plus)
  show ?thesis
    by (auto simp: firstMatch_def incrementRx_def run_group_plus_chr_skip [OF fail] run_lit
        litMatches_plusplus take_len_drop_dropWhile numeral_2_eq_2)
qed

lemma length_takeWhile_dropWhile:
  "length (takeWhile P xs) + length (dropWhile P xs) = length xs"
  by (induction xs) simp_all

lemma dropWhile_shorter: "takeWhile P xs \<noteq> [] \<Longrightarrow> length (dropWhile P xs) < length xs"
  using length_takeWhile_dropWhile [of P xs] by (cases "takeWhile P xs") simp_all

lemma scan_increment:
  "scan incrementRx bef rest =
     (if takeWhile wordChar rest \<noteq> [] \<and> take 2 (dropWhile wordChar rest) = ''++''
      then Inr (takeWhile wordChar rest @ ''++'', [(1, takeWhile wordChar rest)]) #
           scan incrementRx (rev (takeWhile wordChar rest @ ''++'') @ bef)
             (drop 2 (dropWhile wordChar rest))
      else (case rest of [] \<Rightarrow> [] | c # r \<Rightarrow> Inl c # scan incrementRx (c # bef) r))"
proof (cases "takeWhile wordChar rest \<noteq> [] \<and> take 2 (dropWhile wordChar rest) = ''++''")
  case True
  then have "length (drop 2 (dropWhile wordChar rest)) < length rest"
    using dropWhile_shorter [of wordChar rest] by simp
  then show ?thesis
    using True by (subst scan.simps) (simp add: increment_first)
next
  case False
  then show ?thesis
    by (subst scan.simps) (auto simp: increment_first)
qed

lemma noLookbehind_incrementRx: "noLookbehind incrementRx"
  by (simp add: incrementRx_def OneOrMore_def noLookbehind_lit)

lemma scan_increment_bef: "scan incrementRx bef rest = scan incrementRx [] rest"
  using noLookbehind_incrementRx by (rule scan_before)

lemma incrementRewrite_step:
  "incrementRewrite rest =
     (if takeWhile wordChar rest \<noteq> [] \<and> take 2 (dropWhile wordChar rest) = ''++''
      then takeWhile wordChar rest @ '' += 1'' @ incrementRewrite (drop 2 (dropWhile wordChar rest))
      else (case rest of [] \<Rightarrow> [] | c # r \<Rightarrow> c # incrementRewrite r))"
proof (cases "takeWhile wordChar rest \<noteq> [] \<and> take 2 (dropWhile wordChar rest) = ''++''")
  case True
  let ?w = "takeWhile wordChar rest" and ?x = "drop 2 (dropWhile wordChar rest)"
  obtain b1 where "scan incrementRx [] rest = Inr (?w @ ''++'', [(1, ?w)]) # scan incrementRx b1 ?x"
    using scan_increment [of "[]" rest] True by auto
  then have "scan incrementRx [] rest = Inr (?w @ ''++'', [(1, ?w)]) # scan incrementRx [] ?x"
    using scan_increment_bef [of b1 ?x] by simp
  then show ?thesis
    using True by (simp add: incrementRewrite_def replaceAll_def cap_def)
next
  case False
  show ?thesis
  proof (cases rest)
    case Nil
    then show ?thesis
      using False scan_increment [of "[]" rest]
      by (simp add: incrementRewrite_def replaceAll_def)
  next
    case (Cons c r)
    have "scan incrementRx [] rest = Inl c # scan incrementRx [c] r"
      using scan_increment [of "[]" rest] False Cons by auto
    then have "scan incrementRx [] rest = Inl c # scan incrementRx [] r"
      using scan_increment_bef [of "[c]" r] by simp
    moreover have "incrementRewrite rest = c # incrementRewrite r"
      using calculation Cons by (simp add: incrementRewrite_def replaceAll_def)
    ultimately show ?thesis
      using False Cons by (simp only: if_False list.case)
  qed
qed

lemma incrementRewrite_Nil: "incrementRewrite [] = []"
  by (subst incrementRewrite_step) simp

lemma not_wordChar_plus: "\<not> wordChar (CHR ''+'')"
  by (simp add: wordChar_def)

lemma increment_at_word:
  assumes "x \<noteq> []" "list_all wordChar x"
  shows "incrementRewrite (x @ ''++'' @ post) = x @ '' += 1'' @ incrementRewrite post"
proof -
  have all: "\<forall>c\<in>set x. wordChar c" using assms(2) by (simp add: list_all_iff)
  have tw: "takeWhile wordChar (x @ ''++'' @ post) = x"
    using all by (simp add: takeWhile_append2 not_wordChar_plus)
  have dw: "dropWhile wordChar (x @ ''++'' @ post) = ''++'' @ post"
    using all by (simp add: dropWhile_append2 not_wordChar_plus)
  show ?thesis
    using tw dw assms(1) by (subst incrementRewrite_step) simp
qed

lemma increment_append:
  assumes "pre = [] \<or> \<not> wordChar (last pre)" "x \<noteq> []" "list_all wordChar x"
  shows "incrementRewrite (pre @ x @ ''++'' @ post) =
         incrementRewrite pre @ x @ '' += 1'' @ incrementRewrite post"
  using assms(1)
proof (induction pre rule: length_induct)
  case (1 pre)
  let ?tail = "x @ ''++'' @ post"
  show ?case
  proof (cases "pre = []")
    case True
    then show ?thesis
      using increment_at_word [OF assms(2,3), of post] by (simp add: incrementRewrite_Nil)
  next
    case False
    then have lastp: "\<not> wordChar (last pre)" using 1(2) by simp
    have mem: "last pre \<in> set pre" using False by simp
    let ?w = "takeWhile wordChar pre" and ?d = "dropWhile wordChar pre"
    have tw: "takeWhile wordChar (pre @ ?tail) = ?w"
      using mem lastp by (rule takeWhile_append1)
    have dw: "dropWhile wordChar (pre @ ?tail) = ?d @ ?tail"
      using mem lastp by (rule dropWhile_append1)
    have dne: "?d \<noteq> []"
      using mem lastp by (auto simp: dropWhile_eq_Nil_conv)
    have lastd: "last ?d = last pre"
      using dne by (metis last_appendR takeWhile_dropWhile_id)
    have hd_tail: "hd ?tail \<noteq> CHR ''+''"
      using assms(2,3) by (cases x) (auto dest: wordChar_not_plus)
    have tail_ne: "?tail \<noteq> []" using assms(2) by simp
    have same: "take 2 (?d @ ?tail) = ''++'' \<longleftrightarrow> take 2 ?d = ''++''"
    proof (cases ?d)
      case Nil
      then show ?thesis using dne by simp
    next
      case (Cons d d')
      show ?thesis
      proof (cases d')
        case Nil
        then show ?thesis
          using Cons hd_tail tail_ne by (cases ?tail) auto
      next
        case (Cons e d'')
        then show ?thesis using \<open>?d = d # d'\<close> by simp
      qed
    qed
    show ?thesis
    proof (cases "?w \<noteq> [] \<and> take 2 ?d = ''++''")
      case True
      then have len2: "2 \<le> length ?d"
        by (metis length_take min.cobounded1 length_Cons list.size(3) numeral_2_eq_2 min_def
            le_refl)
      let ?p = "drop 2 ?d"
      have shorter: "length ?p < length pre"
        using dropWhile_shorter [of wordChar pre] True by simp
      have lastp': "?p = [] \<or> \<not> wordChar (last ?p)"
        using lastd lastp by (cases "?p = []") simp_all
      have ih: "incrementRewrite (?p @ ?tail) =
                incrementRewrite ?p @ x @ '' += 1'' @ incrementRewrite post"
        using 1(1) shorter lastp' by blast
      have l: "incrementRewrite (pre @ ?tail) = ?w @ '' += 1'' @ incrementRewrite (?p @ ?tail)"
        using True same len2 tw dw
        by (subst incrementRewrite_step) simp
      have r: "incrementRewrite pre = ?w @ '' += 1'' @ incrementRewrite ?p"
        using True by (subst incrementRewrite_step) simp
      show ?thesis
        using l r ih by simp
    next
      case nomatch: False
      obtain c pre' where pre: "pre = c # pre'"
        using False by (cases pre) auto
      have shorter: "length pre' < length pre" using pre by simp
      have lastp': "pre' = [] \<or> \<not> wordChar (last pre')"
        using lastp pre by (cases "pre' = []") simp_all
      have ih: "incrementRewrite (pre' @ ?tail) =
                incrementRewrite pre' @ x @ '' += 1'' @ incrementRewrite post"
        using 1(1) shorter lastp' by blast
      have l: "incrementRewrite (pre @ ?tail) = c # incrementRewrite (pre' @ ?tail)"
        using nomatch same pre tw dw
        by (subst incrementRewrite_step) auto
      have r: "incrementRewrite pre = c # incrementRewrite pre'"
        using nomatch pre by (subst incrementRewrite_step) auto
      show ?thesis
        using l r ih by simp
    qed
  qed
qed

subsection \<open>The print pattern\<close>

lemma toLower_eq_iff:
  assumes "\<not> (97 \<le> (of_char c :: nat) \<and> (of_char c :: nat) \<le> 122)"
  shows "toLower x = c \<longleftrightarrow> x = c \<and> \<not> (65 \<le> (of_char c :: nat) \<and> (of_char c :: nat) \<le> 90)"
proof (cases "65 \<le> (of_char x :: nat) \<and> (of_char x :: nat) \<le> 90")
  case True
  then have low: "toLower x = char_of ((of_char x :: nat) + 32)"
    by (simp add: toLower_def Let_def)
  have "(of_char (toLower x) :: nat) = (of_char x :: nat) + 32"
    using True by (simp add: low)
  then have "toLower x \<noteq> c" using True assms by auto
  then show ?thesis using True by auto
next
  case False
  then have "toLower x = x" by (auto simp: toLower_def Let_def)
  then show ?thesis using False by auto
qed

lemma ci_other: 
  assumes "\<not> (97 \<le> (of_char c :: nat) \<and> (of_char c :: nat) \<le> 122)"
    and "\<not> (65 \<le> (of_char c :: nat) \<and> (of_char c :: nat) \<le> 90)"
  shows "ci c x = (x = c)"
proof -
  have "toLower c = c" using assms(2) by (auto simp: toLower_def Let_def)
  then show ?thesis
    using toLower_eq_iff [OF assms(1), of x] assms(2) by (simp add: ci_def)
qed

lemma ci_rparen: "ci (CHR '')'') x = (x = CHR '')'')"
  by (rule ci_other) simp_all

lemma ci_newline: "ci (CHR 0x0A) x = (x = CHR 0x0A)"
  by (rule ci_other) simp_all

lemma litMatches_close: "litMatches '')\<newline>'' d = (take 2 d = '')\<newline>'')"
proof (cases d)
  case Nil
  then show ?thesis by (simp add: litMatches_def)
next
  case (Cons a d')
  then show ?thesis
    by (cases d') (auto simp: litMatches_def ci_rparen ci_newline)
qed

lemma litMatches_same: "litMatches s (s @ rest)"
  by (simp add: litMatches_def ci_def list_all2_same)

lemma anyChar_rparen: "anyChar (CHR '')'')"
  by (simp add: anyChar_def lineTerminator_def)

lemma not_anyChar_newline: "\<not> anyChar (CHR 0x0A)"
  by (simp add: anyChar_def lineTerminator_def)

text \<open>\<open>.*\<close> before \<open>)\n\<close> on a line that ends with \<open>)\<close>: the greedy run takes the line and
  gives the closing parenthesis back.\<close>
lemma run_star_any_line:
  assumes "list_all anyChar a"
  shows "run (Match (Star (Chr anyChar)) # Close n start # [Match (lit '')\<newline>'')])
           (bef, a @ '')\<newline>'' @ post, cs) =
         Some (rev (a @ '')\<newline>'') @ bef, post,
               (n, take (length start - length ('')\<newline>'' @ post)) start) # cs)"
  using assms
proof (induction a arbitrary: bef)
  case Nil
  have inner: "run (Match (Star (Chr anyChar)) # Close n start # [Match (lit '')\<newline>'')])
       (CHR '')'' # bef, CHR 0x0A # post, cs) = None"
    by (subst run_star_chr) (simp add: not_anyChar_newline run_lit litMatches_close)
  show ?case
    by (subst run_star_chr) (simp add: anyChar_rparen inner run_lit litMatches_close)
next
  case (Cons c a)
  then have "anyChar c" and "list_all anyChar a" by simp_all
  then show ?case
    using Cons.IH [of "c # bef"] by (subst run_star_chr) simp
qed

lemma puts_first_line:
  assumes "a \<noteq> []" "list_all anyChar a"
  shows "firstMatch putsRx bef (''puts('' @ a @ '')\<newline>'' @ post) =
         Some (''puts('' @ a @ '')\<newline>'', post, [(1, a)])"
proof -
  obtain c a' where a: "a = c # a'" using assms(1) by (cases a) auto
  then have c: "anyChar c" and a': "list_all anyChar a'" using assms(2) by simp_all
  let ?line = "a @ '')\<newline>'' @ post"
  have lit: "run (Match (lit ''puts('') # k) (bef, ''puts('' @ ?line, []) =
             run k (rev ''puts('' @ bef, ?line, [])" for k
    using litMatches_same [of "''puts(''" ?line] by (simp add: run_lit)
  have star: "run [Match (Star (Chr anyChar)), Close 1 ?line, Match (lit '')\<newline>'')]
               (c # rev ''puts('' @ bef, a' @ '')\<newline>'' @ post, []) =
             Some (rev (a' @ '')\<newline>'') @ c # rev ''puts('' @ bef, post,
                   [(1, take (length ?line - length ('')\<newline>'' @ post)) ?line)])"
    using run_star_any_line [OF a'] by simp
  have cap: "take (length ?line - length ('')\<newline>'' @ post)) ?line = a"
    by simp
  let ?m = "''puts('' @ a @ '')\<newline>''"
  have run: "run [Match putsRx] (bef, ?m @ post, []) =
        Some (rev (a' @ '')\<newline>'') @ c # rev ''puts('' @ bef, post, [(1, a)])"
    using lit star cap c a by (simp add: putsRx_def OneOrMore_def)
  have tk: "take (length (?m @ post) - length post) (?m @ post) = ?m"
    by (rule take_diff_append)
  have "firstMatch putsRx bef (?m @ post) = Some (?m, post, [(1, a)])"
    unfolding firstMatch_def run using tk by (simp only: option.case prod.case)
  then show ?thesis
    by (simp only: append_assoc)
qed

lemma puts_line:
  assumes "a \<noteq> []" "list_all anyChar a"
  shows "putsRewrite (''puts('' @ a @ '')\<newline>'' @ post) =
         ''puts('' @ join '' + '' (map stringify (split '' + '' a)) @ '')\<newline>'' @ putsRewrite post"
proof -
  let ?m = "''puts('' @ a @ '')\<newline>''"
  have shorter: "length post < length (?m @ post)" by simp
  have "scan putsRx [] (?m @ post) = Inr (?m, [(1, a)]) # scan putsRx (rev ?m @ []) post"
    using puts_first_line [OF assms, of "[]" post] shorter
    by (subst scan.simps) simp
  also have "scan putsRx (rev ?m @ []) post = scan putsRx [] post"
    using noLookbehind_putsRx by (rule scan_before)
  finally show ?thesis
    by (simp add: putsRewrite_def replaceAll_def cap_def)
qed

declare splitFrom.simps [simp del]

lemma splitFrom_none:
  "\<not> contains sep s \<Longrightarrow> splitFrom sep acc s = [rev acc @ s]"
proof (induction s arbitrary: acc)
  case Nil
  show ?case by (subst splitFrom.simps) simp
next
  case (Cons c s)
  then have "\<not> startsWith sep (c # s)" and "\<not> contains sep s" by simp_all
  then show ?case
    using Cons.IH [of "c # acc"] by (subst splitFrom.simps) simp
qed

lemma split_none: "\<not> contains sep s \<Longrightarrow> split sep s = [s]"
  by (simp add: split_def splitFrom_none)

lemma contains_before_suffix:
  "contains '' + '' (a @ '').to_s'') \<longleftrightarrow> contains '' + '' a"
proof (induction a)
  case Nil
  show ?case by (simp add: startsWith_def)
next
  case (Cons c a)
  have "startsWith '' + '' (c # a @ '').to_s'') \<longleftrightarrow> startsWith '' + '' (c # a)"
  proof (cases a)
    case Nil
    then show ?thesis by (simp add: startsWith_def)
  next
    case (Cons d a')
    then show ?thesis by (cases a') (simp_all add: startsWith_def)
  qed
  then show ?case using Cons.IH by simp
qed

lemma contains_wrapped:
  "contains '' + '' (''('' @ a @ '').to_s'') \<longleftrightarrow> contains '' + '' a"
  using contains_before_suffix [of a] by (simp add: startsWith_def)

lemma putsRewrite_Nil: "putsRewrite [] = []"
  by (simp add: putsRewrite_def replaceAll_def scan.simps firstMatch_def putsRx_def lit_def)

lemma stringify_wrap:
  "a \<noteq> [] \<Longrightarrow> hd a \<noteq> CHR 0x27 \<Longrightarrow> hd a \<noteq> CHR 0x22 \<Longrightarrow> stringify a = ''('' @ a @ '').to_s''"
  by (simp add: stringify_def)

lemma puts_single:
  assumes "a \<noteq> []" "list_all anyChar a" "hd a \<noteq> CHR 0x27" "hd a \<noteq> CHR 0x22"
    "\<not> contains '' + '' a"
  shows "putsRewrite (''puts('' @ a @ '')\<newline>'') = ''puts(('' @ a @ '').to_s)\<newline>''"
  using puts_line [OF assms(1,2), of "[]"] assms
  by (simp add: split_none stringify_wrap putsRewrite_Nil)

lemma increment_output_stays:
  "list_all wordChar x \<Longrightarrow> incrementRewrite (x @ '' += 1'') = x @ '' += 1''"
proof (induction x)
  case Nil
  show ?case by code_simp
next
  case (Cons c x)
  then have c: "wordChar c" and all: "\<forall>d\<in>set x. wordChar d"
    by (simp_all add: list_all_iff)
  have tw: "takeWhile wordChar ((c # x) @ '' += 1'') = c # x"
    using c all by (simp add: takeWhile_append2 wordChar_def)
  have dw: "dropWhile wordChar ((c # x) @ '' += 1'') = '' += 1''"
    using c all by (simp add: dropWhile_append2 wordChar_def)
  have "incrementRewrite ((c # x) @ '' += 1'') = c # incrementRewrite (x @ '' += 1'')"
    using tw dw by (subst incrementRewrite_step) simp
  then show ?case using Cons by simp
qed

lemma second_pass:
  assumes "a \<noteq> []" "list_all anyChar a" "hd a \<noteq> CHR 0x27" "hd a \<noteq> CHR 0x22"
    "\<not> contains '' + '' a" "list_all wordChar x"
  shows "putsRewrite (''puts('' @ a @ '')\<newline>'') = ''puts(('' @ a @ '').to_s)\<newline>'' \<and>
         putsRewrite (''puts(('' @ a @ '').to_s)\<newline>'') = ''puts((('' @ a @ '').to_s).to_s)\<newline>'' \<and>
         incrementRewrite (x @ '' += 1'') = x @ '' += 1''"
proof -
  let ?b = "''('' @ a @ '').to_s''"
  have b: "?b \<noteq> []" "list_all anyChar ?b" "hd ?b \<noteq> CHR 0x27" "hd ?b \<noteq> CHR 0x22"
    "\<not> contains '' + '' ?b"
    using assms(2,5) contains_wrapped [of a]
    by (simp_all add: anyChar_def lineTerminator_def)
  show ?thesis
    using puts_single [OF assms(1-5)] puts_single [OF b] increment_output_stays [OF assms(6)]
    by simp
qed


section \<open>Properties of the correction pipeline\<close>

subsection \<open>Increments\<close>

lemma no_plusplus_in_replacement:
  "list_all wordChar x \<Longrightarrow> \<not> contains ''++'' (x @ '' += 1'')"
proof (induction x)
  case Nil
  show ?case by (simp add: startsWith_def)
next
  case (Cons c x)
  then have "c \<noteq> CHR ''+''" by (auto dest: wordChar_not_plus)
  then show ?case using Cons by (simp add: startsWith_def)
qed

text \<open>
  Claim C8, as the code has it: where a word \<open>x\<close> (letters, digits and underscores, not
  preceded by such a character) is followed by \<open>++\<close>, the increment rewrite puts \<open>x += 1\<close>
  in its place and rewrites the text before and the text after on their own; the
  replacement holds no \<open>++\<close>.
\<close>
theorem increment_rewritten:
  assumes "pre = [] \<or> \<not> wordChar (last pre)" "x \<noteq> []" "list_all wordChar x"
  shows "incrementRewrite (pre @ x @ ''++'' @ post) =
           incrementRewrite pre @ x @ '' += 1'' @ incrementRewrite post \<and>
         \<not> contains ''++'' (x @ '' += 1'')"
  using increment_append [OF assms] no_plusplus_in_replacement [OF assms(3)] by simp

theorem increment_rewritten_witness:
  "\<not> wordChar (last ''f('') \<and> ''i'' \<noteq> [] \<and> list_all wordChar ''i'' \<and>
   incrementRewrite ''f(i++)'' = ''f(i += 1)'' \<and> \<not> contains ''++'' ''i += 1''"
proof -
  have p: "''f('' = [] \<or> \<not> wordChar (last ''f('')" by (simp add: wordChar_def)
  have x: "''i'' \<noteq> []" by simp
  have w: "list_all wordChar ''i''" by (simp add: wordChar_def)
  have pre: "incrementRewrite ''f('' = ''f(''" by code_simp
  have post: "incrementRewrite '')'' = '')''" by code_simp
  show ?thesis
    using p w increment_rewritten [OF p x w, of "'')''"] pre post by simp
qed

text \<open>
  Claim C8 as stated fails for an identifier that is not a word of the pattern: \<open>a$++\<close>
  reaches the output unchanged, since \<open>$\<close> is not matched by \<open>\w\<close>.
\<close>
theorem increment_rewritten_counterexample:
  "map_sum id fst
     (parse (\<lambda>k. None)
        (ExpressionStatement (UpdateExpression False ''++'' (Identifier ''a$'')))
        \<lparr>buffer = newBuffer, corrections = []\<rparr>) = Inr ''a$++\<newline>''"
proof -
  have dispatch: "recursiveParse
      (ExpressionStatement (UpdateExpression False ''++'' (Identifier ''a$''))) newBuffer =
    Inr (ExpressionStatement (UpdateExpression False ''++'' (Identifier ''a$'')),
         \<lparr>finished = [''a$++''], current = [], depth = 0\<rparr>)"
    by (simp add: buffer_defs)
  have raw: "get \<lparr>finished = [''a$++''], current = [], depth = 0\<rparr> = ''a$++\<newline>''"
    by (simp add: get_def)
  have corrected: "correct (\<lambda>k. None) [] ''a$++\<newline>'' = Inr ''a$++\<newline>''"
    by code_simp
  show ?thesis
    by (simp add: parse_def dispatch raw corrected del: recursiveParse.simps)
qed

subsection \<open>Print calls\<close>

text \<open>
  Claim C9 fails on the code at a string literal that holds \<open>" + "\<close>: the print rewrite
  cuts the argument text inside the literal and wraps its second half, although a piece
  that starts with a quote is meant to be kept as a string literal.
\<close>
theorem puts_cuts_string_literal:
  "map_sum id fst
     (parse (\<lambda>k. None)
        (ExpressionStatement (CallExpression (Identifier ''puts'')
           [BinaryExpression (StringLiteral ''\"a + b = \"'') ''+'' (Identifier ''c'')]))
        \<lparr>buffer = newBuffer, corrections = []\<rparr>) =
   Inr ''puts(\"a + (b = \").to_s + (c).to_s)\<newline>''"
proof -
  have dispatch: "recursiveParse
      (ExpressionStatement (CallExpression (Identifier ''puts'')
           [BinaryExpression (StringLiteral ''\"a + b = \"'') ''+'' (Identifier ''c'')])) newBuffer =
    Inr (ExpressionStatement (CallExpression (Identifier ''puts'')
           [BinaryExpression (StringLiteral ''\"a + b = \"'') ''+'' (Identifier ''c'')]),
         \<lparr>finished = [''puts(\"a + b = \" + c)''], current = [], depth = 0\<rparr>)"
    by (simp add: buffer_defs)
  have raw: "get \<lparr>finished = [''puts(\"a + b = \" + c)''], current = [], depth = 0\<rparr> =
      ''puts(\"a + b = \" + c)\<newline>''"
    by (simp add: get_def)
  have corrected: "correct (\<lambda>k. None) [] ''puts(\"a + b = \" + c)\<newline>'' =
      Inr ''puts(\"a + (b = \").to_s + (c).to_s)\<newline>''"
    by code_simp
  show ?thesis
    by (simp add: parse_def dispatch raw corrected del: recursiveParse.simps)
qed


subsection \<open>A second application\<close>

text \<open>
  Claim C3, as the code has it: the output of the print rewrite matches the print pattern
  again, and a print call with one argument that does not start with a quote gets one more
  \<open>.to_s\<close> wrapper at each application; the replacement \<open>x += 1\<close> of the increment rewrite
  is left as it is by the increment rewrite.
\<close>
theorem second_application:
  assumes "a \<noteq> []" "list_all anyChar a" "hd a \<noteq> CHR 0x27" "hd a \<noteq> CHR 0x22"
    "\<not> contains '' + '' a" "list_all wordChar x"
  shows "putsRewrite (''puts('' @ a @ '')\<newline>'') = ''puts(('' @ a @ '').to_s)\<newline>'' \<and>
         putsRewrite (''puts(('' @ a @ '').to_s)\<newline>'') = ''puts((('' @ a @ '').to_s).to_s)\<newline>'' \<and>
         incrementRewrite (x @ '' += 1'') = x @ '' += 1''"
  using assms by (rule second_pass)

theorem second_application_witness:
  "''n'' \<noteq> [] \<and> list_all anyChar ''n'' \<and> hd ''n'' \<noteq> CHR 0x27 \<and> hd ''n'' \<noteq> CHR 0x22 \<and>
   \<not> contains '' + '' ''n'' \<and> list_all wordChar ''i'' \<and>
   putsRewrite ''puts(n)\<newline>'' = ''puts((n).to_s)\<newline>'' \<and>
   putsRewrite ''puts((n).to_s)\<newline>'' = ''puts(((n).to_s).to_s)\<newline>'' \<and>
   incrementRewrite ''i += 1'' = ''i += 1''"
proof -
  have h1: "''n'' \<noteq> []" by simp
  have h2: "list_all anyChar ''n''" by code_simp
  have h3: "hd ''n'' \<noteq> CHR 0x27" by simp
  have h4: "hd ''n'' \<noteq> CHR 0x22" by simp
  have h5: "\<not> contains '' + '' ''n''" by code_simp
  have h6: "list_all wordChar ''i''" by code_simp
  show ?thesis
    using h1 h2 h3 h4 h5 h6 second_application [OF h1 h2 h3 h4 h5 h6] by simp
qed

text \<open>
  Claim C3 as stated fails: the pipeline changes its own output for \<open>puts(n)\<close>.
\<close>
theorem second_application_counterexample:
  "map_sum id fst
     (parse (\<lambda>k. None)
        (ExpressionStatement (CallExpression (Identifier ''puts'') [Identifier ''n'']))
        \<lparr>buffer = newBuffer, corrections = []\<rparr>) = Inr ''puts((n).to_s)\<newline>'' \<and>
   correct (\<lambda>k. None) [] ''puts((n).to_s)\<newline>'' = Inr ''puts(((n).to_s).to_s)\<newline>'' \<and>
   ''puts(((n).to_s).to_s)\<newline>'' \<noteq> ''puts((n).to_s)\<newline>''"
proof -
  have dispatch: "recursiveParse
      (ExpressionStatement (CallExpression (Identifier ''puts'') [Identifier ''n''])) newBuffer =
    Inr (ExpressionStatement (CallExpression (Identifier ''puts'') [Identifier ''n'']),
         \<lparr>finished = [''puts(n)''], current = [], depth = 0\<rparr>)"
    by (simp add: buffer_defs)
  have raw: "get \<lparr>finished = [''puts(n)''], current = [], depth = 0\<rparr> = ''puts(n)\<newline>''"
    by (simp add: get_def)
  have once: "correct (\<lambda>k. None) [] ''puts(n)\<newline>'' = Inr ''puts((n).to_s)\<newline>''"
    by code_simp
  have twice: "correct (\<lambda>k. None) [] ''puts((n).to_s)\<newline>'' = Inr ''puts(((n).to_s).to_s)\<newline>''"
    by code_simp
  show ?thesis
    by (simp add: parse_def dispatch raw once twice del: recursiveParse.simps)
qed

end
